theory Spec2Isabelle
  imports Complex_Main "HOL-Library.Multiset"
begin

section \<open>JavaScript numbers and values\<close>

text \<open>
  A JavaScript number is a finite value, one of the two infinities, or NaN. A finite
  value is a real number. An arithmetic operation on finite values, and the reading of a
  decimal literal, overflow as binary64 arithmetic with rounding to nearest does: when
  the exact result reaches \<open>2^1024 - 2^970\<close> in magnitude the result is an infinity
  (\<open>fin\<close>). Below that threshold the exact result is kept: the rounding of a finite
  result to 53 bits, underflow, and the sign of zero are outside the model (\<open>-0\<close> and
  \<open>+0\<close> are the one value \<open>Fin 0\<close>, taken as \<open>+0\<close> where the sign would decide).
  NaN propagation, the comparisons that are false on NaN and the arithmetic of the
  infinities follow ECMAScript.
\<close>

datatype jsnum = Fin real | PInf | NInf | NaN

definition overflow_threshold :: real where
  "overflow_threshold = 2 ^ 1024 - 2 ^ 970"

definition fin :: "real \<Rightarrow> jsnum" where
  "fin r = (if r \<ge> overflow_threshold then PInf
            else if r \<le> - overflow_threshold then NInf else Fin r)"

fun is_finite :: "jsnum \<Rightarrow> bool" where
  "is_finite (Fin x) = True"
| "is_finite _ = False"

text \<open>Unary minus and the four arithmetic operators.\<close>

fun jneg :: "jsnum \<Rightarrow> jsnum" where
  "jneg (Fin x) = Fin (- x)"
| "jneg PInf = NInf"
| "jneg NInf = PInf"
| "jneg NaN = NaN"

fun jadd :: "jsnum \<Rightarrow> jsnum \<Rightarrow> jsnum" where
  "jadd NaN b = NaN"
| "jadd a NaN = NaN"
| "jadd (Fin x) (Fin y) = fin (x + y)"
| "jadd (Fin x) b = b"
| "jadd a (Fin y) = a"
| "jadd PInf PInf = PInf"
| "jadd NInf NInf = NInf"
| "jadd PInf NInf = NaN"
| "jadd NInf PInf = NaN"

definition jsub :: "jsnum \<Rightarrow> jsnum \<Rightarrow> jsnum" where
  "jsub a b = jadd a (jneg b)"

text \<open>The sign of a non-NaN number: \<open>1\<close>, \<open>0\<close> or \<open>-1\<close>.\<close>

fun jsign :: "jsnum \<Rightarrow> int" where
  "jsign (Fin x) = (if x > 0 then 1 else if x < 0 then - 1 else 0)"
| "jsign PInf = 1"
| "jsign NInf = - 1"
| "jsign NaN = 0"

definition inf_of_sign :: "int \<Rightarrow> jsnum" where
  "inf_of_sign s = (if s > 0 then PInf else if s < 0 then NInf else NaN)"

fun jmul :: "jsnum \<Rightarrow> jsnum \<Rightarrow> jsnum" where
  "jmul NaN b = NaN"
| "jmul a NaN = NaN"
| "jmul (Fin x) (Fin y) = fin (x * y)"
| "jmul a b = inf_of_sign (jsign a * jsign b)"

fun jdiv :: "jsnum \<Rightarrow> jsnum \<Rightarrow> jsnum" where
  "jdiv NaN b = NaN"
| "jdiv a NaN = NaN"
| "jdiv (Fin x) (Fin y) = (if y \<noteq> 0 then fin (x / y) else inf_of_sign (jsign (Fin x)))"
| "jdiv (Fin x) b = Fin 0"
| "jdiv a (Fin y) = inf_of_sign (jsign a * (if y < 0 then - 1 else 1))"
| "jdiv a b = NaN"

text \<open>
  The relational operators: every comparison with NaN is false. \<open>a <= b\<close> is
  \<open>b < a\<close> negated, and false when the comparison is undefined.
\<close>

fun jlt :: "jsnum \<Rightarrow> jsnum \<Rightarrow> bool" where
  "jlt NaN b = False"
| "jlt a NaN = False"
| "jlt (Fin x) (Fin y) = (x < y)"
| "jlt a PInf = (a \<noteq> PInf)"
| "jlt NInf b = (b \<noteq> NInf)"
| "jlt a b = False"

definition jgt :: "jsnum \<Rightarrow> jsnum \<Rightarrow> bool" where
  "jgt a b = jlt b a"

definition jle :: "jsnum \<Rightarrow> jsnum \<Rightarrow> bool" where
  "jle a b = (a \<noteq> NaN \<and> b \<noteq> NaN \<and> \<not> jlt b a)"

definition jge :: "jsnum \<Rightarrow> jsnum \<Rightarrow> bool" where
  "jge a b = jle b a"

text \<open>Strict equality \<open>===\<close> on numbers: NaN is not equal to itself.\<close>

definition strict_eq :: "jsnum \<Rightarrow> jsnum \<Rightarrow> bool" where
  "strict_eq a b = (a \<noteq> NaN \<and> b \<noteq> NaN \<and> a = b)"

text \<open>ToBoolean on a number: \<open>0\<close> and NaN are falsy.\<close>

definition truthy :: "jsnum \<Rightarrow> bool" where
  "truthy a = (a \<noteq> NaN \<and> a \<noteq> Fin 0)"

subsection \<open>The functions of \<open>Math\<close> that the program calls\<close>

definition Math_PI :: jsnum where
  "Math_PI = Fin pi"

fun Math_sin :: "jsnum \<Rightarrow> jsnum" where
  "Math_sin (Fin x) = Fin (sin x)"
| "Math_sin _ = NaN"

fun Math_cos :: "jsnum \<Rightarrow> jsnum" where
  "Math_cos (Fin x) = Fin (cos x)"
| "Math_cos _ = NaN"

fun Math_sqrt :: "jsnum \<Rightarrow> jsnum" where
  "Math_sqrt (Fin x) = (if x < 0 then NaN else Fin (sqrt x))"
| "Math_sqrt PInf = PInf"
| "Math_sqrt _ = NaN"

text \<open>\<open>Math.atan2(y, x)\<close>, by the cases of its specification.\<close>

fun Math_atan2 :: "jsnum \<Rightarrow> jsnum \<Rightarrow> jsnum" where
  "Math_atan2 NaN x = NaN"
| "Math_atan2 y NaN = NaN"
| "Math_atan2 PInf PInf = Fin (pi / 4)"
| "Math_atan2 PInf NInf = Fin (3 * pi / 4)"
| "Math_atan2 PInf (Fin x) = Fin (pi / 2)"
| "Math_atan2 NInf PInf = Fin (- pi / 4)"
| "Math_atan2 NInf NInf = Fin (- 3 * pi / 4)"
| "Math_atan2 NInf (Fin x) = Fin (- pi / 2)"
| "Math_atan2 (Fin y) PInf = Fin 0"
| "Math_atan2 (Fin y) NInf = (if y < 0 then Fin (- pi) else Fin pi)"
| "Math_atan2 (Fin y) (Fin x) =
     (if x > 0 then Fin (arctan (y / x))
      else if x < 0 then (if y < 0 then Fin (arctan (y / x) - pi) else Fin (arctan (y / x) + pi))
      else if y > 0 then Fin (pi / 2)
      else if y < 0 then Fin (- pi / 2)
      else Fin 0)"

text \<open>
  \<open>Math.min(...xs)\<close>: \<open>Infinity\<close> for no argument, NaN as soon as one argument is
  NaN, the least argument otherwise.
\<close>

definition min2 :: "jsnum \<Rightarrow> jsnum \<Rightarrow> jsnum" where
  "min2 a b = (if a = NaN \<or> b = NaN then NaN else if jlt b a then b else a)"

definition Math_min :: "jsnum list \<Rightarrow> jsnum" where
  "Math_min xs = foldl min2 PInf xs"

text \<open>\<open>xs.indexOf(v)\<close> on an array of numbers: the first index whose element is
  strictly equal to \<open>v\<close>, or \<open>-1\<close>.\<close>

fun indexOf_from :: "int \<Rightarrow> jsnum list \<Rightarrow> jsnum \<Rightarrow> int" where
  "indexOf_from i [] v = - 1"
| "indexOf_from i (x # xs) v = (if strict_eq x v then i else indexOf_from (i + 1) xs v)"

definition indexOf :: "jsnum list \<Rightarrow> jsnum \<Rightarrow> int" where
  "indexOf xs v = indexOf_from 0 xs v"

subsection \<open>Values of fields, \<open>parseFloat\<close> and \<open>parseInt\<close>\<close>

text \<open>
  A field of a row or of a point holds a string (a CSV field, a DECIMAL column), a
  number (an INTEGER column, a computed mean), \<open>null\<close>, or nothing at all
  (\<open>undefined\<close>). A string is the sequence of the bytes of its UTF-8 encoding.
\<close>

datatype jsval = JUndefined | JNull | JNum jsnum | JStr string

text \<open>
  White space and line terminators, which \<open>parseFloat\<close> and \<open>parseInt\<close> skip at the
  start of their argument: the six ASCII characters, U+00A0 (two bytes), and U+1680,
  U+2000 to U+200A, U+2028, U+2029, U+202F, U+205F, U+3000 and U+FEFF (three bytes
  each).
\<close>

definition is_ws :: "char \<Rightarrow> bool" where
  "is_ws c = (c \<in> set [CHR '' '', CHR 0x09, CHR 0x0A, CHR 0x0B, CHR 0x0C, CHR 0x0D])"

definition is_ws3 :: "char \<Rightarrow> char \<Rightarrow> char \<Rightarrow> bool" where
  "is_ws3 a b c =
     ((a = CHR 0xE1 \<and> b = CHR 0x9A \<and> c = CHR 0x80)
      \<or> (a = CHR 0xE2 \<and> b = CHR 0x80
          \<and> ((128 \<le> (of_char c :: nat) \<and> (of_char c :: nat) \<le> 138)
               \<or> c = CHR 0xA8 \<or> c = CHR 0xA9 \<or> c = CHR 0xAF))
      \<or> (a = CHR 0xE2 \<and> b = CHR 0x81 \<and> c = CHR 0x9F)
      \<or> (a = CHR 0xE3 \<and> b = CHR 0x80 \<and> c = CHR 0x80)
      \<or> (a = CHR 0xEF \<and> b = CHR 0xBB \<and> c = CHR 0xBF))"

fun skip_ws :: "string \<Rightarrow> string" where
  "skip_ws (a # b # c # r) =
     (if is_ws a then skip_ws (b # c # r)
      else if a = CHR 0xC2 \<and> b = CHR 0xA0 then skip_ws (c # r)
      else if is_ws3 a b c then skip_ws r
      else a # b # c # r)"
| "skip_ws [a, b] =
     (if is_ws a then skip_ws [b]
      else if a = CHR 0xC2 \<and> b = CHR 0xA0 then []
      else [a, b])"
| "skip_ws [a] = (if is_ws a then [] else [a])"
| "skip_ws [] = []"

definition is_digit :: "char \<Rightarrow> bool" where
  "is_digit c = (48 \<le> (of_char c :: nat) \<and> (of_char c :: nat) \<le> 57)"

definition digit_val :: "char \<Rightarrow> nat" where
  "digit_val c = of_char c - 48"

definition digits_val :: "string \<Rightarrow> nat" where
  "digits_val ds = foldl (\<lambda>a c. 10 * a + digit_val c) 0 ds"

text \<open>The sign in front of a literal: whether it is \<open>-\<close>, and the rest.\<close>

fun strip_sign :: "string \<Rightarrow> bool \<times> string" where
  "strip_sign [] = (False, [])"
| "strip_sign (c # r) =
     (if c = CHR ''-'' then (True, r) else if c = CHR ''+'' then (False, r) else (False, c # r))"

text \<open>An exponent part \<open>e\<close>, sign, digits at the head of the rest, or none (\<open>0\<close>).\<close>

fun exponent_part :: "string \<Rightarrow> int" where
  "exponent_part [] = 0"
| "exponent_part (c # r) =
     (if c = CHR ''e'' \<or> c = CHR ''E'' then
        (let (neg, u) = strip_sign r; ds = takeWhile is_digit u
         in if ds = [] then 0 else if neg then - int (digits_val ds) else int (digits_val ds))
      else 0)"

definition pow10 :: "int \<Rightarrow> real" where
  "pow10 e = (if e \<ge> 0 then 10 ^ nat e else 1 / 10 ^ nat (- e))"

text \<open>
  \<open>parseFloat\<close> on a string: leading white space is skipped, then the longest prefix
  that is a decimal literal (or a signed \<open>Infinity\<close>) is the value, an infinity when
  the literal is too large (\<open>1e400\<close>); NaN when there is no such prefix.
\<close>

definition parseFloat_str :: "string \<Rightarrow> jsnum" where
  "parseFloat_str s =
     (let (neg, u) = strip_sign (skip_ws s) in
      if take 8 u = ''Infinity'' then (if neg then NInf else PInf)
      else
        let ip = takeWhile is_digit u;
            r1 = dropWhile is_digit u;
            dot = (r1 \<noteq> [] \<and> hd r1 = CHR ''.'');
            fp = (if dot then takeWhile is_digit (tl r1) else []);
            r2 = (if dot then dropWhile is_digit (tl r1) else r1)
        in if ip = [] \<and> fp = [] then NaN
           else
             let v = real (digits_val (ip @ fp)) / 10 ^ length fp * pow10 (exponent_part r2)
             in fin (if neg then - v else v))"

text \<open>
  \<open>parseFloat\<close> converts its argument to a string first: \<open>undefined\<close> and \<open>null\<close> give
  NaN, a number gives itself back.
\<close>

fun parseFloat :: "jsval \<Rightarrow> jsnum" where
  "parseFloat JUndefined = NaN"
| "parseFloat JNull = NaN"
| "parseFloat (JNum x) = x"
| "parseFloat (JStr s) = parseFloat_str s"

text \<open>
  \<open>parseInt\<close> with no radix, on a field of a CSV row (a string, or \<open>None\<close> for a
  column the row does not have): white space, a sign, \<open>0x\<close> for radix 16, then the
  longest run of digits of the radix; NaN when the run is empty.
\<close>

definition is_hex_digit :: "char \<Rightarrow> bool" where
  "is_hex_digit c = (is_digit c \<or> (65 \<le> (of_char c :: nat) \<and> (of_char c :: nat) \<le> 70)
     \<or> (97 \<le> (of_char c :: nat) \<and> (of_char c :: nat) \<le> 102))"

definition hex_val :: "char \<Rightarrow> nat" where
  "hex_val c = (if is_digit c then of_char c - 48
     else if (of_char c :: nat) \<le> 70 then of_char c - 55 else of_char c - 87)"

definition parseInt_str :: "string \<Rightarrow> jsnum" where
  "parseInt_str s =
     (let (neg, u) = strip_sign (skip_ws s);
          hex = (take 2 u = ''0x'' \<or> take 2 u = ''0X'');
          ds = (if hex then takeWhile is_hex_digit (drop 2 u) else takeWhile is_digit u);
          n = (if hex then foldl (\<lambda>a c. 16 * a + hex_val c) 0 ds else digits_val ds)
      in if ds = [] then NaN else fin (if neg then - real n else real n))"

fun parseInt :: "string option \<Rightarrow> jsnum" where
  "parseInt None = NaN"
| "parseInt (Some s) = parseInt_str s"

fun field :: "string option \<Rightarrow> jsval" where
  "field None = JUndefined"
| "field (Some s) = JStr s"

section \<open>Import script: validation and enrichment of trip rows\<close>

text \<open>
  A bounding rectangle, the bounds of the city and the table of boroughs. The table is
  an object literal; \<open>Object.entries\<close> lists its entries in the order they are written,
  so it is a list of pairs here.
\<close>

record bounds =
  minLat :: jsnum
  maxLat :: jsnum
  minLon :: jsnum
  maxLon :: jsnum

definition NYC_BOUNDS :: bounds where
  "NYC_BOUNDS = \<lparr> minLat = Fin 40.4774, maxLat = Fin 40.9176,
                   minLon = Fin (- 74.2591), maxLon = Fin (- 73.7004) \<rparr>"

definition BOROUGHS :: "(string \<times> bounds) list" where
  "BOROUGHS =
    [(''Manhattan'', \<lparr> minLat = Fin 40.7000, maxLat = Fin 40.8000,
                       minLon = Fin (- 74.0500), maxLon = Fin (- 73.9000) \<rparr>),
     (''Brooklyn'', \<lparr> minLat = Fin 40.5700, maxLat = Fin 40.7400,
                      minLon = Fin (- 74.0500), maxLon = Fin (- 73.8000) \<rparr>),
     (''Queens'', \<lparr> minLat = Fin 40.5400, maxLat = Fin 40.8000,
                    minLon = Fin (- 74.0000), maxLon = Fin (- 73.7000) \<rparr>),
     (''Bronx'', \<lparr> minLat = Fin 40.7800, maxLat = Fin 40.9200,
                   minLon = Fin (- 73.9500), maxLon = Fin (- 73.7500) \<rparr>),
     (''Staten Island'', \<lparr> minLat = Fin 40.5000, maxLat = Fin 40.6500,
                           minLon = Fin (- 74.3000), maxLon = Fin (- 74.0000) \<rparr>)]"

text \<open>
  The great-circle distance of the import script (\<open>calculateDistance\<close> of
  \<open>importData.js\<close>; the clusterer has a method of the same name, \<open>calculateDistance\<close>
  below). The script has no \<open>throw\<close>: the function is arithmetic only.
\<close>

definition haversine_a :: "jsnum \<Rightarrow> jsnum \<Rightarrow> jsnum \<Rightarrow> jsnum \<Rightarrow> jsnum" where
  "haversine_a lat1 lon1 lat2 lon2 =
     (let dLat = jdiv (jmul (jsub lat2 lat1) Math_PI) (Fin 180);
          dLon = jdiv (jmul (jsub lon2 lon1) Math_PI) (Fin 180)
      in jadd (jmul (Math_sin (jdiv dLat (Fin 2))) (Math_sin (jdiv dLat (Fin 2))))
              (jmul (jmul (jmul (Math_cos (jdiv (jmul lat1 Math_PI) (Fin 180)))
                                (Math_cos (jdiv (jmul lat2 Math_PI) (Fin 180))))
                          (Math_sin (jdiv dLon (Fin 2))))
                    (Math_sin (jdiv dLon (Fin 2)))))"

definition greatCircleDistance :: "jsnum \<Rightarrow> jsnum \<Rightarrow> jsnum \<Rightarrow> jsnum \<Rightarrow> jsnum" where
  "greatCircleDistance lat1 lon1 lat2 lon2 =
     (let R = Fin 6371;
          a = haversine_a lat1 lon1 lat2 lon2;
          c = jmul (Fin 2) (Math_atan2 (Math_sqrt a) (Math_sqrt (jsub (Fin 1) a)))
      in jmul R c)"

text \<open>
  What a call does: it returns a number, or it throws. \<open>InvalidInputError\<close> is the
  error the specification names; no function of the program constructs it.
\<close>

datatype js_error = InvalidInputError

definition greatCircleDistance_call ::
    "jsnum \<Rightarrow> jsnum \<Rightarrow> jsnum \<Rightarrow> jsnum \<Rightarrow> js_error + jsnum" where
  "greatCircleDistance_call lat1 lon1 lat2 lon2 = Inr (greatCircleDistance lat1 lon1 lat2 lon2)"

text \<open>\<open>getBorough\<close>: the loop over the entries, returning at the first match.\<close>

definition in_bounds :: "bounds \<Rightarrow> jsnum \<Rightarrow> jsnum \<Rightarrow> bool" where
  "in_bounds b lat lon =
     (jge lat (minLat b) \<and> jle lat (maxLat b) \<and> jge lon (minLon b) \<and> jle lon (maxLon b))"

fun getBorough_in :: "(string \<times> bounds) list \<Rightarrow> jsnum \<Rightarrow> jsnum \<Rightarrow> string" where
  "getBorough_in [] lat lon = ''Unknown''"
| "getBorough_in ((borough, b) # rest) lat lon =
     (if jge lat (minLat b) \<and> jle lat (maxLat b) \<and> jge lon (minLon b) \<and> jle lon (maxLon b)
      then borough else getBorough_in rest lat lon)"

definition getBorough :: "jsnum \<Rightarrow> jsnum \<Rightarrow> string" where
  "getBorough lat lon = getBorough_in BOROUGHS lat lon"

text \<open>
  \<open>isValidCoordinate\<close>, with the bounds as a parameter; the program's function is the
  instance at \<open>NYC_BOUNDS\<close>.
\<close>

definition isValidCoordinate_in :: "bounds \<Rightarrow> jsnum \<Rightarrow> jsnum \<Rightarrow> bool" where
  "isValidCoordinate_in B lat lon =
     (\<not> strict_eq lat (Fin 0) \<and> \<not> strict_eq lon (Fin 0) \<and>
      jge lat (minLat B) \<and> jle lat (maxLat B) \<and>
      jge lon (minLon B) \<and> jle lon (maxLon B))"

definition isValidCoordinate :: "jsnum \<Rightarrow> jsnum \<Rightarrow> bool" where
  "isValidCoordinate lat lon = isValidCoordinate_in NYC_BOUNDS lat lon"

text \<open>
  A row of the CSV file as \<open>csv-parser\<close> hands it over: every field is a string, or is
  missing (\<open>None\<close>, the value \<open>undefined\<close>).
\<close>

record trip_record =
  pickup_latitude :: "string option"
  pickup_longitude :: "string option"
  dropoff_latitude :: "string option"
  dropoff_longitude :: "string option"
  trip_duration :: "string option"
  passenger_count :: "string option"

definition isValidTrip :: "trip_record \<Rightarrow> bool" where
  "isValidTrip r =
     (let pickupLat = parseFloat (field (pickup_latitude r));
          pickupLon = parseFloat (field (pickup_longitude r));
          dropoffLat = parseFloat (field (dropoff_latitude r));
          dropoffLon = parseFloat (field (dropoff_longitude r));
          duration = parseInt (trip_duration r);
          passengers = parseInt (passenger_count r)
      in if \<not> isValidCoordinate pickupLat pickupLon \<or> \<not> isValidCoordinate dropoffLat dropoffLon
         then False
         else if jlt duration (Fin 30) \<or> jgt duration (Fin 10800) then False
         else if jlt passengers (Fin 1) \<or> jgt passengers (Fin 6) then False
         else
           let distance = greatCircleDistance pickupLat pickupLon dropoffLat dropoffLon
           in if jlt distance (Fin 0.1) \<or> jgt distance (Fin 100) then False else True)"

text \<open>
  \<open>enrichTripData\<close>. The derived numbers are kept as numbers (the script formats them
  with \<open>toFixed\<close>); the three fields read off the pickup date are left out, no
  statement below depends on them.
\<close>

record enriched_record = trip_record +
  distance_km :: jsnum
  speed_kmh :: jsnum
  fare_per_km :: jsnum
  pickup_borough :: string
  dropoff_borough :: string
  trip_type :: string

definition enrichTripData :: "trip_record \<Rightarrow> enriched_record" where
  "enrichTripData r =
     (let pickupLat = parseFloat (field (pickup_latitude r));
          pickupLon = parseFloat (field (pickup_longitude r));
          dropoffLat = parseFloat (field (dropoff_latitude r));
          dropoffLon = parseFloat (field (dropoff_longitude r));
          duration = parseInt (trip_duration r);
          distance = greatCircleDistance pickupLat pickupLon dropoffLat dropoffLon;
          speed = jdiv distance (jdiv duration (Fin 3600));
          pickupBorough = getBorough pickupLat pickupLon;
          dropoffBorough = getBorough dropoffLat dropoffLon;
          tripType = (if pickupBorough \<noteq> dropoffBorough \<and> pickupBorough \<noteq> ''Unknown''
                         \<and> dropoffBorough \<noteq> ''Unknown''
                      then ''Cross Borough'' else ''Within Borough'')
      in trip_record.extend r
           \<lparr> distance_km = distance, speed_kmh = speed,
             fare_per_km = jdiv (parseFloat (field (trip_duration r))) distance,
             pickup_borough = pickupBorough, dropoff_borough = dropoffBorough,
             trip_type = tripType \<rparr>)"

section \<open>The clusterer\<close>

text \<open>
  A point of the clusterer is an object with the fields \<open>lat\<close>, \<open>lon\<close> and
  \<open>duration\<close> (a row of the query has more columns; the clusterer reads none of them).
  Where a point may be \<open>null\<close> or \<open>undefined\<close> it is a \<open>point option\<close>.
\<close>

record point =
  lat :: jsval
  lon :: jsval
  duration :: jsval

text \<open>\<open>parseFloat(x) || 0\<close>\<close>

definition parseFloat_or_0 :: "jsval \<Rightarrow> jsnum" where
  "parseFloat_or_0 v = (if truthy (parseFloat v) then parseFloat v else Fin 0)"

text \<open>\<open>TripClusterer.calculateDistance\<close>\<close>

fun calculateDistance :: "point option \<Rightarrow> point option \<Rightarrow> jsnum" where
  "calculateDistance None point2 = PInf"
| "calculateDistance point1 None = PInf"
| "calculateDistance (Some point1) (Some point2) =
     (let lat1 = parseFloat_or_0 (lat point1);
          lat2 = parseFloat_or_0 (lat point2);
          lon1 = parseFloat_or_0 (lon point1);
          lon2 = parseFloat_or_0 (lon point2);
          dur1 = parseFloat_or_0 (duration point1);
          dur2 = parseFloat_or_0 (duration point2);
          latDiff = jsub lat1 lat2;
          lonDiff = jsub lon1 lon2;
          durationDiff = jdiv (jsub dur1 dur2) (Fin 1000)
      in Math_sqrt (jadd (jadd (jmul latDiff latDiff) (jmul lonDiff lonDiff))
                         (jmul durationDiff durationDiff)))"

text \<open>
  \<open>Math.random()\<close> is a source of numbers \<open>rnd 0, rnd 1, ...\<close>; the state of the
  generator is the position \<open>s\<close> of the next number. \<open>Math.floor(Math.random() *
  data.length)\<close> is \<open>random_index\<close>.
\<close>

definition random_index :: "(nat \<Rightarrow> real) \<Rightarrow> nat \<Rightarrow> nat \<Rightarrow> int" where
  "random_index rnd n s = \<lfloor>rnd s * real n\<rfloor>"

text \<open>
  \<open>{ ...data[i] }\<close>: the copy of the element at index \<open>i\<close>; out of range the element
  is \<open>undefined\<close> and the copy is the empty object, all of whose fields are
  \<open>undefined\<close>.
\<close>

definition empty_object :: point where
  "empty_object = \<lparr> lat = JUndefined, lon = JUndefined, duration = JUndefined \<rparr>"

definition copy_at :: "point list \<Rightarrow> int \<Rightarrow> point" where
  "copy_at data i = (if 0 \<le> i \<and> i < int (length data) then data ! nat i else empty_object)"

text \<open>
  \<open>initializeCentroids\<close>. The \<open>do ... while\<close> loop draws until the index is not in
  \<open>usedIndices\<close>; it need not end, so it is a partial function and \<open>None\<close> is the run
  that never leaves the loop.
\<close>

partial_function (option) draw_unused ::
    "(nat \<Rightarrow> real) \<Rightarrow> nat \<Rightarrow> int set \<Rightarrow> nat \<Rightarrow> (int \<times> nat) option" where
  "draw_unused rnd n usedIndices s =
     (let randomIndex = random_index rnd n s
      in if randomIndex \<in> usedIndices then draw_unused rnd n usedIndices (Suc s)
         else Some (randomIndex, Suc s))"

function initializeCentroids_loop ::
    "(nat \<Rightarrow> real) \<Rightarrow> point list \<Rightarrow> int \<Rightarrow> int \<Rightarrow> int set \<Rightarrow> point list \<Rightarrow> nat
      \<Rightarrow> (point list \<times> nat) option" where
  "initializeCentroids_loop rnd data k i usedIndices centroids s =
     (if i < k then
        (case draw_unused rnd (length data) usedIndices s of
           None \<Rightarrow> None
         | Some (randomIndex, s') \<Rightarrow>
             initializeCentroids_loop rnd data k (i + 1) (insert randomIndex usedIndices)
               (centroids @ [copy_at data randomIndex]) s')
      else Some (centroids, s))"
  by pat_completeness auto
termination
  by (relation "measure (\<lambda>(rnd, data, k, i, usedIndices, centroids, s). nat (k - i))") auto

definition initializeCentroids ::
    "(nat \<Rightarrow> real) \<Rightarrow> point list \<Rightarrow> int \<Rightarrow> nat \<Rightarrow> (point list \<times> nat) option" where
  "initializeCentroids rnd data k s = initializeCentroids_loop rnd data k 0 {} [] s"

text \<open>The body of \<open>data.forEach\<close>: one point is pushed to the cluster of its nearest
  centroid, when \<open>indexOf\<close> finds one.\<close>

definition assign_point :: "point list \<Rightarrow> point list list \<Rightarrow> point \<Rightarrow> point list list" where
  "assign_point centroids clusters p =
     (let distances = map (\<lambda>centroid. calculateDistance (Some p) (Some centroid)) centroids;
          nearestIndex = indexOf distances (Math_min distances)
      in if nearestIndex \<ge> 0 \<and> nearestIndex < int (length clusters)
         then clusters[nat nearestIndex := clusters ! nat nearestIndex @ [p]]
         else clusters)"

definition assign_points :: "point list \<Rightarrow> int \<Rightarrow> point list \<Rightarrow> point list list" where
  "assign_points centroids k data = foldl (assign_point centroids) (replicate (nat k) []) data"

text \<open>The mean of one field over a cluster: \<open>reduce\<close> from \<open>0\<close>, then the division
  by the length.\<close>

definition average :: "(point \<Rightarrow> jsval) \<Rightarrow> point list \<Rightarrow> jsnum" where
  "average f cluster =
     jdiv (foldl (\<lambda>sum p. jadd sum (parseFloat (f p))) (Fin 0) cluster)
          (Fin (real (length cluster)))"

text \<open>\<open>clusters.map\<close> of the update step: an empty cluster takes a random point of the
  data (one draw), the others the mean of their members.\<close>

fun update_centroids ::
    "(nat \<Rightarrow> real) \<Rightarrow> point list \<Rightarrow> point list list \<Rightarrow> nat \<Rightarrow> point list \<times> nat" where
  "update_centroids rnd data [] s = ([], s)"
| "update_centroids rnd data (cluster # rest) s =
     (if length cluster = 0 then
        (let randomIndex = random_index rnd (length data) s;
             (cs, s') = update_centroids rnd data rest (Suc s)
         in (copy_at data randomIndex # cs, s'))
      else
        (let avgLat = average lat cluster;
             avgLon = average lon cluster;
             avgDuration = average duration cluster;
             (cs, s') = update_centroids rnd data rest s
         in (\<lparr> lat = JNum avgLat, lon = JNum avgLon, duration = JNum avgDuration \<rparr> # cs, s')))"

text \<open>\<open>xs[i]\<close> as a value that may be \<open>undefined\<close>.\<close>

definition element_at :: "'a list \<Rightarrow> nat \<Rightarrow> 'a option" where
  "element_at xs i = (if i < length xs then Some (xs ! i) else None)"

definition converged :: "point list \<Rightarrow> point list \<Rightarrow> bool" where
  "converged centroids newCentroids =
     list_all (\<lambda>i. jlt (calculateDistance (element_at centroids i) (element_at newCentroids i))
                       (Fin 0.001))
              [0 ..< length centroids]"

text \<open>The \<open>for\<close> loop of \<open>kMeans\<close>, with its \<open>break\<close>: the state is the iteration
  counter, the centroids, the clusters of the last assignment and the generator.\<close>

function kMeans_loop ::
    "(nat \<Rightarrow> real) \<Rightarrow> point list \<Rightarrow> int \<Rightarrow> int \<Rightarrow> int \<Rightarrow> point list \<Rightarrow> point list list \<Rightarrow> nat
      \<Rightarrow> point list list \<times> nat" where
  "kMeans_loop rnd data k maxIterations iteration centroids clusters s =
     (if iteration < maxIterations then
        (let clusters' = assign_points centroids k data;
             (newCentroids, s') = update_centroids rnd data clusters' s
         in if converged centroids newCentroids then (clusters', s')
            else kMeans_loop rnd data k maxIterations (iteration + 1) newCentroids clusters' s')
      else (clusters, s))"
  by pat_completeness auto
termination
  by (relation "measure (\<lambda>(rnd, data, k, maxIterations, iteration, centroids, clusters, s).
                  nat (maxIterations - iteration))") auto

text \<open>
  \<open>kMeans(data, k, maxIterations)\<close>, started with the generator at position \<open>s\<close>:
  the clusters it returns and the position of the generator afterwards, or \<open>None\<close>
  when the initialisation never ends. The elements of \<open>data\<close> are the rows of the
  query, objects; \<open>k\<close> and \<open>maxIterations\<close> are integers, as the route passes them
  (\<open>maxIterations\<close> is 100 when the caller leaves it out).
\<close>

definition kMeans ::
    "(nat \<Rightarrow> real) \<Rightarrow> nat \<Rightarrow> point list \<Rightarrow> int \<Rightarrow> int \<Rightarrow> (point list list \<times> nat) option" where
  "kMeans rnd s data k maxIterations =
     (if length data = 0 then Some ([], s)
      else if k \<le> 0 \<or> k > int (length data) then Some ([data], s)
      else
        (case initializeCentroids rnd data k s of
           None \<Rightarrow> None
         | Some (centroids, s1) \<Rightarrow>
             (let (clusters, s2) = kMeans_loop rnd data k maxIterations 0 centroids [] s1
              in Some (filter (\<lambda>cluster. length cluster > 0) clusters, s2))))"

section \<open>Notions used to state the properties\<close>

text \<open>
  The number a field stands for in the clusterer's distance: the value \<open>parseFloat\<close>
  reads, and \<open>0\<close> when it reads NaN (a missing or non-numeric field).
\<close>

definition field_value :: "jsval \<Rightarrow> real" where
  "field_value v = (case parseFloat v of Fin x \<Rightarrow> x | _ \<Rightarrow> 0)"

text \<open>No field of the point parses to \<open>Infinity\<close> or \<open>-Infinity\<close>.\<close>

definition no_infinite_field :: "point \<Rightarrow> bool" where
  "no_infinite_field p =
     list_all (\<lambda>v. parseFloat v \<noteq> PInf \<and> parseFloat v \<noteq> NInf) [lat p, lon p, duration p]"

text \<open>The square of the Euclidean distance of two points, the duration axis divided
  by 1000, as a real number.\<close>

definition squared_distance :: "point \<Rightarrow> point \<Rightarrow> real" where
  "squared_distance p q =
     (field_value (lat p) - field_value (lat q))\<^sup>2
     + (field_value (lon p) - field_value (lon q))\<^sup>2
     + ((field_value (duration p) - field_value (duration q)) / 1000)\<^sup>2"

text \<open>From position \<open>s\<close> on, the random source yields at least \<open>k\<close> pairwise distinct
  indices into an array of length \<open>n\<close>.\<close>

definition distinct_draws :: "(nat \<Rightarrow> real) \<Rightarrow> nat \<Rightarrow> int \<Rightarrow> nat \<Rightarrow> bool" where
  "distinct_draws rnd n k s =
     (\<exists>js. int (length js) = max 0 k \<and> distinct (map (random_index rnd n) js)
           \<and> list_all (\<lambda>j. s \<le> j) js)"

text \<open>A number that is \<open>Infinity\<close> or finite and not negative.\<close>

definition not_negative :: "jsnum \<Rightarrow> bool" where
  "not_negative a = (a = PInf \<or> (\<exists>r\<ge>0. a = Fin r))"

section \<open>Inputs of the examples\<close>

text \<open>
  Rows of the CSV file whose endpoints are one hundredth of a degree of latitude apart,
  inside the city: one with an empty \<open>trip_duration\<close> field, one with a duration of
  30 seconds, one with 29.
\<close>

definition row_without_duration :: trip_record where
  "row_without_duration =
     \<lparr> pickup_latitude = Some ''40.75'', pickup_longitude = Some ''-73.98'',
       dropoff_latitude = Some ''40.76'', dropoff_longitude = Some ''-73.98'',
       trip_duration = Some '''', passenger_count = Some ''1'' \<rparr>"

definition row_30s :: trip_record where
  "row_30s = row_without_duration \<lparr> trip_duration := Some ''30'' \<rparr>"

definition row_29s :: trip_record where
  "row_29s = row_without_duration \<lparr> trip_duration := Some ''29'' \<rparr>"

text \<open>Points of the clusterer: with numbers as fields, with the strings of DECIMAL
  columns, and one whose three fields are missing or not numeric.\<close>

definition point_a :: point where
  "point_a = \<lparr> lat = JNum (Fin 40.70), lon = JNum (Fin (- 73.95)), duration = JNum (Fin 300) \<rparr>"

definition db_row :: point where
  "db_row = \<lparr> lat = JStr ''40.7000000'', lon = JStr ''-73.9500000'', duration = JNum (Fin 300) \<rparr>"

definition db_row2 :: point where
  "db_row2 = \<lparr> lat = JStr ''40.7300000'', lon = JStr ''-73.9100000'', duration = JNum (Fin 1300) \<rparr>"


text \<open>Points with a field that is an infinity or is large: a latitude that parses to
  \<open>Infinity\<close>, a point with a missing latitude and the longitude \<open>Infinity\<close>, a point
  with the finite latitude \<open>1e200\<close>, and the point whose fields are 0.\<close>

definition huge_point :: point where
  "huge_point = \<lparr> lat = JStr ''1e400'', lon = JNum (Fin (- 73.95)), duration = JNum (Fin 300) \<rparr>"


definition big_point :: point where
  "big_point = \<lparr> lat = JNum (Fin (10 ^ 200)), lon = JNum (Fin 0), duration = JNum (Fin 0) \<rparr>"

definition origin_point :: point where
  "origin_point = \<lparr> lat = JNum (Fin 0), lon = JNum (Fin 0), duration = JNum (Fin 0) \<rparr>"

definition point_b :: point where
  "point_b = \<lparr> lat = JNum (Fin 40.80), lon = JNum (Fin (- 73.90)), duration = JNum (Fin 900) \<rparr>"

text \<open>A source of random numbers that alternates between \<open>0\<close> and \<open>1/2\<close>.\<close>

definition alternating :: "nat \<Rightarrow> real" where
  "alternating j = (if even j then 0 else 1 / 2)"

section \<open>Properties of the import script\<close>

lemmas parse_defs = parseFloat_str_def parseInt_str_def is_ws_def is_ws3_def is_digit_def
  digits_val_def digit_val_def pow10_def

subsection \<open>Overflow\<close>

lemma overflow_threshold_bounds:
  "10 ^ 300 < overflow_threshold" "overflow_threshold < 10 ^ 309"
  by (simp_all add: overflow_threshold_def)

lemma fin_Fin: "\<bar>r\<bar> < overflow_threshold \<Longrightarrow> fin r = Fin r"
  by (auto simp: fin_def)

lemma fin_small: "\<bar>r\<bar> \<le> 10 ^ 9 \<Longrightarrow> fin r = Fin r"
proof -
  have "(10::real) ^ 9 < 10 ^ 300" by simp
  then show "\<bar>r\<bar> \<le> 10 ^ 9 \<Longrightarrow> fin r = Fin r"
    using overflow_threshold_bounds(1) by (intro fin_Fin) linarith
qed

lemma fin_not_NaN [simp]: "fin r \<noteq> NaN"
  by (simp add: fin_def)

lemma fin_numeral [simp]: "fin 0 = Fin 0" "fin 1 = Fin 1"
  by (simp_all add: fin_small)

subsection \<open>Arithmetic on numbers that are not finite\<close>

lemma jmul_NaN_right [simp]: "jmul a NaN = NaN"
  by (cases a) simp_all

lemma jadd_NaN_right [simp]: "jadd a NaN = NaN"
  by (cases a) simp_all

lemma jsub_is_finite: "is_finite (jsub a b) \<Longrightarrow> is_finite a \<and> is_finite b"
  by (cases a; cases b) (simp_all add: jsub_def)

lemma to_radians_is_finite: "is_finite (jdiv (jmul a Math_PI) (Fin 180)) \<Longrightarrow> is_finite a"
  by (cases a) (simp_all add: Math_PI_def inf_of_sign_def)

lemma halve_is_finite: "is_finite (jdiv a (Fin 2)) \<Longrightarrow> is_finite a"
  by (cases a) (simp_all add: inf_of_sign_def)

lemma Math_sin_not_finite: "\<not> is_finite a \<Longrightarrow> Math_sin a = NaN"
  by (cases a) simp_all

lemma sin_half_angle_NaN:
  assumes "\<not> is_finite a \<or> \<not> is_finite b"
  shows "Math_sin (jdiv (jdiv (jmul (jsub b a) Math_PI) (Fin 180)) (Fin 2)) = NaN"
proof -
  have "\<not> is_finite (jsub b a)" using assms jsub_is_finite by blast
  then have "\<not> is_finite (jdiv (jdiv (jmul (jsub b a) Math_PI) (Fin 180)) (Fin 2))"
    using to_radians_is_finite halve_is_finite by blast
  then show ?thesis by (rule Math_sin_not_finite)
qed

lemma haversine_a_NaN:
  assumes "\<not> is_finite lat1 \<or> \<not> is_finite lon1 \<or> \<not> is_finite lat2 \<or> \<not> is_finite lon2"
  shows "haversine_a lat1 lon1 lat2 lon2 = NaN"
proof (cases "\<not> is_finite lat1 \<or> \<not> is_finite lat2")
  case True
  then show ?thesis
    by (simp add: haversine_a_def Let_def sin_half_angle_NaN)
next
  case False
  then have "\<not> is_finite lon1 \<or> \<not> is_finite lon2" using assms by blast
  then show ?thesis
    by (simp add: haversine_a_def Let_def sin_half_angle_NaN)
qed

lemma greatCircleDistance_NaN:
  assumes "\<not> is_finite lat1 \<or> \<not> is_finite lon1 \<or> \<not> is_finite lat2 \<or> \<not> is_finite lon2"
  shows "greatCircleDistance lat1 lon1 lat2 lon2 = NaN"
  by (simp add: greatCircleDistance_def Let_def haversine_a_NaN [OF assms] jsub_def)

theorem greatCircleDistance_propagates_NaN:
  "greatCircleDistance_call lat1 lon1 lat2 lon2 = Inr (greatCircleDistance lat1 lon1 lat2 lon2)
   \<and> (\<not> is_finite lat1 \<or> \<not> is_finite lon1 \<or> \<not> is_finite lat2 \<or> \<not> is_finite lon2
        \<longrightarrow> greatCircleDistance_call lat1 lon1 lat2 lon2 = Inr NaN)"
  by (simp add: greatCircleDistance_call_def greatCircleDistance_NaN)

theorem greatCircleDistance_propagates_NaN_witness:
  "\<not> is_finite PInf
   \<and> greatCircleDistance_call PInf (Fin (- 73.98)) (Fin 40.76) (Fin (- 73.98)) = Inr NaN"
proof -
  have h: "\<not> is_finite PInf" by simp
  from greatCircleDistance_propagates_NaN [of PInf "Fin (- 73.98)" "Fin 40.76" "Fin (- 73.98)"] h
  show ?thesis by blast
qed

theorem greatCircleDistance_no_error_counterexample:
  "greatCircleDistance_call NaN (Fin 0) (Fin 0) (Fin 0) \<noteq> Inl InvalidInputError
   \<and> greatCircleDistance_call NaN (Fin 0) (Fin 0) (Fin 0) = Inr NaN
   \<and> greatCircleDistance_call (Fin 40.75) PInf (Fin 40.76) (Fin (- 73.98)) = Inr NaN"
  by (simp add: greatCircleDistance_call_def greatCircleDistance_NaN)

subsection \<open>The distance along a meridian\<close>

lemma to_radians_Fin:
  assumes "\<bar>x\<bar> \<le> 1000"
  shows "jdiv (jmul (Fin x) Math_PI) (Fin 180) = Fin (x * pi / 180)"
proof -
  have "\<bar>x\<bar> * pi \<le> 1000 * 4"
    using assms pi_less_4 by (intro mult_mono) auto
  then have b: "\<bar>x * pi\<bar> \<le> 4000" by (simp add: abs_mult)
  then have "jmul (Fin x) Math_PI = Fin (x * pi)" by (simp add: Math_PI_def fin_small)
  moreover have "\<bar>x * pi / 180\<bar> \<le> 10 ^ 9" using b by simp
  ultimately show ?thesis by (simp add: fin_small)
qed

lemma product_le_one: "\<bar>a\<bar> \<le> 1 \<Longrightarrow> \<bar>b\<bar> \<le> 1 \<Longrightarrow> \<bar>a * b\<bar> \<le> (1::real)"
  by (simp add: abs_mult mult_le_one)

lemma same_meridian_distance:
  assumes "x \<le> y" and "y - x < 180" and "\<bar>x\<bar> \<le> 1000" "\<bar>y\<bar> \<le> 1000"
  shows "greatCircleDistance (Fin x) (Fin l) (Fin y) (Fin l) = Fin (6371 * ((y - x) * pi / 180))"
proof -
  define t where "t = (y - x) * pi / 180 / 2"
  have t0: "0 \<le> t" using assms by (simp add: t_def)
  have "(y - x) * pi < 180 * pi" using assms by simp
  then have t1: "t < pi / 2" by (simp add: t_def)
  then have t2: "t < 2" using pi_less_4 by simp
  have s: "0 \<le> sin t" using t0 t1 by (intro sin_ge_zero) auto
  have c: "0 < cos t" using t0 t1 by (intro cos_gt_zero_pi) auto
  have d0: "jsub (Fin y) (Fin x) = Fin (y - x)"
    using assms by (simp add: jsub_def fin_small)
  have "\<bar>y - x\<bar> \<le> 1000" using assms by simp
  then have d1: "jdiv (jmul (Fin (y - x)) Math_PI) (Fin 180) = Fin ((y - x) * pi / 180)"
    by (rule to_radians_Fin)
  have "fin t = Fin t" using t0 t2 by (intro fin_small) simp
  then have d2: "jdiv (Fin ((y - x) * pi / 180)) (Fin 2) = Fin t"
    by (simp add: t_def)
  have d3: "jmul (Fin (sin t)) (Fin (sin t)) = Fin (sin t * sin t)"
    using product_le_one [of "sin t" "sin t"] by (simp add: fin_small)
  have l0: "jsub (Fin l) (Fin l) = Fin 0" by (simp add: jsub_def)
  have l1: "Math_sin (jdiv (jdiv (jmul (Fin 0) Math_PI) (Fin 180)) (Fin 2)) = Fin 0"
    by (simp add: Math_PI_def)
  have cc: "jmul (Math_cos (jdiv (jmul (Fin x) Math_PI) (Fin 180)))
                 (Math_cos (jdiv (jmul (Fin y) Math_PI) (Fin 180)))
              = Fin (cos (x * pi / 180) * cos (y * pi / 180))"
    using product_le_one [of "cos (x * pi / 180)" "cos (y * pi / 180)"]
    by (simp add: to_radians_Fin assms fin_small)
  have a: "haversine_a (Fin x) (Fin l) (Fin y) (Fin l) = Fin (sin t * sin t)"
    unfolding haversine_a_def Let_def d0 d1 d2 l0 l1 cc Math_sin.simps d3
    using product_le_one [of "sin t" "sin t"] by (simp add: fin_small)
  have c2: "1 - sin t * sin t = cos t * cos t"
    using sin_cos_squared_add [of t] by (simp add: power2_eq_square algebra_simps)
  have sq1: "Math_sqrt (Fin (sin t * sin t)) = Fin (sin t)"
    using s by simp
  have "\<bar>cos t * cos t\<bar> \<le> 1" by (intro product_le_one) auto
  then have sq2: "Math_sqrt (jsub (Fin 1) (Fin (sin t * sin t))) = Fin (cos t)"
    using c by (simp add: jsub_def c2 fin_small)
  have "arctan (sin t / cos t) = t"
    using arctan_tan [of t] t0 t1 by (simp add: tan_def)
  then have at: "Math_atan2 (Fin (sin t)) (Fin (cos t)) = Fin t"
    using c by simp
  have "greatCircleDistance (Fin x) (Fin l) (Fin y) (Fin l) = Fin (6371 * (2 * t))"
    unfolding greatCircleDistance_def Let_def a sq1 sq2 at
    using t0 t2 by (simp add: fin_small)
  also have "2 * t = (y - x) * pi / 180" by (simp add: t_def)
  finally show ?thesis .
qed

lemma valid_pickup: "isValidCoordinate (Fin 40.75) (Fin (- 73.98))"
  by (simp add: isValidCoordinate_def isValidCoordinate_in_def NYC_BOUNDS_def strict_eq_def
      jge_def jle_def)

lemma valid_dropoff: "isValidCoordinate (Fin 40.76) (Fin (- 73.98))"
  by (simp add: isValidCoordinate_def isValidCoordinate_in_def NYC_BOUNDS_def strict_eq_def
      jge_def jle_def)

lemma one_hundredth_degree:
  "greatCircleDistance (Fin 40.75) (Fin (- 73.98)) (Fin 40.76) (Fin (- 73.98))
     = Fin (6371 * ((40.76 - 40.75) * pi / 180))"
  by (rule same_meridian_distance) simp_all

lemma one_hundredth_degree_in_range:
  "\<not> jlt (Fin (6371 * ((40.76 - 40.75) * pi / 180))) (Fin 0.1)"
  "\<not> jgt (Fin (6371 * ((40.76 - 40.75) * pi / 180))) (Fin 100)"
  using pi_ge_two pi_less_4 by (simp_all add: jgt_def)

lemma parsed_row_without_duration:
  "parseFloat (field (pickup_latitude row_without_duration)) = Fin 40.75"
  "parseFloat (field (pickup_longitude row_without_duration)) = Fin (- 73.98)"
  "parseFloat (field (dropoff_latitude row_without_duration)) = Fin 40.76"
  "parseFloat (field (dropoff_longitude row_without_duration)) = Fin (- 73.98)"
  "parseInt (trip_duration row_without_duration) = NaN"
  "parseInt (passenger_count row_without_duration) = Fin 1"
  by (simp_all add: row_without_duration_def parse_defs fin_small)

text \<open>
  C3 at a row whose duration does not parse: \<open>parseInt\<close> gives NaN, both comparisons
  of the duration check are false on NaN, and \<open>isValidTrip\<close> returns true although the
  duration is not in the range from 30 to 10800.
\<close>

theorem isValidTrip_accepts_NaN_duration:
  "parseInt (trip_duration row_without_duration) = NaN
   \<and> isValidTrip row_without_duration = True"
proof -
  have f: "parseFloat (field (pickup_latitude row_without_duration)) = Fin 40.75"
    "parseFloat (field (pickup_longitude row_without_duration)) = Fin (- 73.98)"
    "parseFloat (field (dropoff_latitude row_without_duration)) = Fin 40.76"
    "parseFloat (field (dropoff_longitude row_without_duration)) = Fin (- 73.98)"
    "parseInt (trip_duration row_without_duration) = NaN"
    "parseInt (passenger_count row_without_duration) = Fin 1"
    by (simp_all add: row_without_duration_def parse_defs fin_small)
  have g: "\<not> jlt NaN (Fin 30)" "\<not> jgt NaN (Fin 10800)" "\<not> jlt (Fin 1) (Fin 1)" "\<not> jgt (Fin 1) (Fin 6)"
    by (simp_all add: jgt_def)
  have "isValidTrip row_without_duration = True"
    unfolding isValidTrip_def Let_def f one_hundredth_degree
    using valid_pickup valid_dropoff g one_hundredth_degree_in_range
    by (simp only: simp_thms if_False if_True)
  then show ?thesis using f(5) by simp
qed

text \<open>The same row, read against the range: the duration that \<open>isValidTrip\<close> accepted
  is neither at least 30 nor at most 10800.\<close>

theorem isValidTrip_accepts_NaN_duration_witness:
  "isValidTrip row_without_duration
   \<and> \<not> jge (parseInt (trip_duration row_without_duration)) (Fin 30)
   \<and> \<not> jle (parseInt (trip_duration row_without_duration)) (Fin 10800)"
  using isValidTrip_accepts_NaN_duration by (simp add: jge_def jle_def)

lemma range_check:
  "a \<noteq> NaN \<Longrightarrow> (\<not> (jlt a (Fin lo) \<or> jgt a (Fin hi))) = (jge a (Fin lo) \<and> jle a (Fin hi))"
  by (simp add: jge_def jle_def jgt_def)

text \<open>
  When the duration and the passenger count parse to numbers and the distance is not
  NaN, \<open>isValidTrip\<close> is the conjunction of the five checks, every bound inclusive:
  30 seconds pass, 29 do not.
\<close>

theorem isValidTrip_numeric_fields:
  "parseInt (trip_duration r) \<noteq> NaN \<and> parseInt (passenger_count r) \<noteq> NaN
     \<and> greatCircleDistance (parseFloat (field (pickup_latitude r)))
          (parseFloat (field (pickup_longitude r))) (parseFloat (field (dropoff_latitude r)))
          (parseFloat (field (dropoff_longitude r))) \<noteq> NaN
   \<longrightarrow> isValidTrip r =
        (isValidCoordinate (parseFloat (field (pickup_latitude r)))
           (parseFloat (field (pickup_longitude r)))
         \<and> isValidCoordinate (parseFloat (field (dropoff_latitude r)))
             (parseFloat (field (dropoff_longitude r)))
         \<and> jge (parseInt (trip_duration r)) (Fin 30) \<and> jle (parseInt (trip_duration r)) (Fin 10800)
         \<and> jge (parseInt (passenger_count r)) (Fin 1) \<and> jle (parseInt (passenger_count r)) (Fin 6)
         \<and> jge (greatCircleDistance (parseFloat (field (pickup_latitude r)))
                  (parseFloat (field (pickup_longitude r))) (parseFloat (field (dropoff_latitude r)))
                  (parseFloat (field (dropoff_longitude r)))) (Fin 0.1)
         \<and> jle (greatCircleDistance (parseFloat (field (pickup_latitude r)))
                  (parseFloat (field (pickup_longitude r))) (parseFloat (field (dropoff_latitude r)))
                  (parseFloat (field (dropoff_longitude r)))) (Fin 100))"
proof (intro impI, elim conjE)
  assume n: "parseInt (trip_duration r) \<noteq> NaN" "parseInt (passenger_count r) \<noteq> NaN"
    "greatCircleDistance (parseFloat (field (pickup_latitude r)))
          (parseFloat (field (pickup_longitude r))) (parseFloat (field (dropoff_latitude r)))
          (parseFloat (field (dropoff_longitude r))) \<noteq> NaN"
  have "isValidTrip r =
      (\<not> (\<not> isValidCoordinate (parseFloat (field (pickup_latitude r)))
           (parseFloat (field (pickup_longitude r)))
         \<or> \<not> isValidCoordinate (parseFloat (field (dropoff_latitude r)))
             (parseFloat (field (dropoff_longitude r))))
       \<and> \<not> (jlt (parseInt (trip_duration r)) (Fin 30) \<or> jgt (parseInt (trip_duration r)) (Fin 10800))
       \<and> \<not> (jlt (parseInt (passenger_count r)) (Fin 1) \<or> jgt (parseInt (passenger_count r)) (Fin 6))
       \<and> \<not> (jlt (greatCircleDistance (parseFloat (field (pickup_latitude r)))
                  (parseFloat (field (pickup_longitude r))) (parseFloat (field (dropoff_latitude r)))
                  (parseFloat (field (dropoff_longitude r)))) (Fin 0.1)
            \<or> jgt (greatCircleDistance (parseFloat (field (pickup_latitude r)))
                  (parseFloat (field (pickup_longitude r))) (parseFloat (field (dropoff_latitude r)))
                  (parseFloat (field (dropoff_longitude r)))) (Fin 100)))"
    unfolding isValidTrip_def Let_def by (simp only: if_bool_eq_conj simp_thms) blast
  then show "isValidTrip r =
        (isValidCoordinate (parseFloat (field (pickup_latitude r)))
           (parseFloat (field (pickup_longitude r)))
         \<and> isValidCoordinate (parseFloat (field (dropoff_latitude r)))
             (parseFloat (field (dropoff_longitude r)))
         \<and> jge (parseInt (trip_duration r)) (Fin 30) \<and> jle (parseInt (trip_duration r)) (Fin 10800)
         \<and> jge (parseInt (passenger_count r)) (Fin 1) \<and> jle (parseInt (passenger_count r)) (Fin 6)
         \<and> jge (greatCircleDistance (parseFloat (field (pickup_latitude r)))
                  (parseFloat (field (pickup_longitude r))) (parseFloat (field (dropoff_latitude r)))
                  (parseFloat (field (dropoff_longitude r)))) (Fin 0.1)
         \<and> jle (greatCircleDistance (parseFloat (field (pickup_latitude r)))
                  (parseFloat (field (pickup_longitude r))) (parseFloat (field (dropoff_latitude r)))
                  (parseFloat (field (dropoff_longitude r)))) (Fin 100))"
    unfolding range_check [OF n(1)] range_check [OF n(2)] range_check [OF n(3)] by blast
qed

theorem isValidTrip_numeric_fields_witness:
  "parseInt (trip_duration row_30s) = Fin 30 \<and> parseInt (passenger_count row_30s) = Fin 1
   \<and> isValidTrip row_30s
   \<and> parseInt (trip_duration row_29s) = Fin 29 \<and> \<not> isValidTrip row_29s"
proof -
  have f: "parseFloat (field (pickup_latitude row_30s)) = Fin 40.75"
    "parseFloat (field (pickup_longitude row_30s)) = Fin (- 73.98)"
    "parseFloat (field (dropoff_latitude row_30s)) = Fin 40.76"
    "parseFloat (field (dropoff_longitude row_30s)) = Fin (- 73.98)"
    "parseInt (trip_duration row_30s) = Fin 30"
    "parseInt (passenger_count row_30s) = Fin 1"
    by (simp_all add: row_30s_def row_without_duration_def parse_defs fin_small)
  have g: "parseFloat (field (pickup_latitude row_29s)) = Fin 40.75"
    "parseFloat (field (pickup_longitude row_29s)) = Fin (- 73.98)"
    "parseFloat (field (dropoff_latitude row_29s)) = Fin 40.76"
    "parseFloat (field (dropoff_longitude row_29s)) = Fin (- 73.98)"
    "parseInt (trip_duration row_29s) = Fin 29"
    "parseInt (passenger_count row_29s) = Fin 1"
    by (simp_all add: row_29s_def row_without_duration_def parse_defs fin_small)
  have d: "jge (Fin (6371 * ((40.76 - 40.75) * pi / 180))) (Fin 0.1)"
    "jle (Fin (6371 * ((40.76 - 40.75) * pi / 180))) (Fin 100)"
    using one_hundredth_degree_in_range by (simp_all add: jge_def jle_def jgt_def)
  have n: "Fin 30 \<noteq> NaN" "Fin 29 \<noteq> NaN" "Fin 1 \<noteq> NaN"
    "Fin (6371 * ((40.76 - 40.75) * pi / 180)) \<noteq> NaN"
    by simp_all
  have r: "jge (Fin 30) (Fin 30)" "jle (Fin 30) (Fin 10800)" "jge (Fin 1) (Fin 1)" "jle (Fin 1) (Fin 6)"
    "\<not> jge (Fin 29) (Fin 30)"
    by (simp_all add: jge_def jle_def)
  have a: "isValidTrip row_30s"
    using isValidTrip_numeric_fields [of row_30s] valid_pickup valid_dropoff d n r
    unfolding f one_hundredth_degree by blast
  have b: "\<not> isValidTrip row_29s"
    using isValidTrip_numeric_fields [of row_29s] n r
    unfolding g one_hundredth_degree by blast
  show ?thesis using a b f(5,6) g(5) by blast
qed

subsection \<open>Regions and coordinates\<close>

lemma getBorough_in_find:
  "getBorough_in table la lo =
     (case find (\<lambda>(name, b). in_bounds b la lo) table of
        None \<Rightarrow> ''Unknown'' | Some (name, b) \<Rightarrow> name)"
  by (induction table la lo rule: getBorough_in.induct) (auto simp: in_bounds_def)

lemma getBorough_in_label:
  "getBorough_in table la lo \<in> insert ''Unknown'' (fst ` set table)"
  by (induction table la lo rule: getBorough_in.induct) auto

lemma in_bounds_Fin:
  "in_bounds \<lparr> minLat = Fin a, maxLat = Fin b, minLon = Fin c, maxLon = Fin d \<rparr> (Fin x) (Fin y)
     = (a \<le> x \<and> x \<le> b \<and> c \<le> y \<and> y \<le> d)"
  by (simp add: in_bounds_def jge_def jle_def not_less)

text \<open>
  C5: \<open>getBorough\<close> returns the name of the first rectangle of \<open>BOROUGHS\<close>, in the
  order in which the table is written (Manhattan, Brooklyn, Queens, Bronx, Staten
  Island), that contains the point with all four bounds inclusive, and \<open>Unknown\<close> when
  there is none; the result is one of the five configured names or \<open>Unknown\<close>. For a
  point with finite coordinates that is the chain of the five rectangle tests below. The
  point (40.75, -73.98) is in Manhattan; so are the corner (40.70, -74.05) of its
  rectangle and the point (40.72, -73.95), which the rectangle of Brooklyn contains too.
\<close>

theorem getBorough_first_match:
  "getBorough la lo =
     (case find (\<lambda>(name, b). in_bounds b la lo) BOROUGHS of
        None \<Rightarrow> ''Unknown'' | Some (name, b) \<Rightarrow> name)
   \<and> map fst BOROUGHS = [''Manhattan'', ''Brooklyn'', ''Queens'', ''Bronx'', ''Staten Island'']
   \<and> getBorough (Fin x) (Fin y) =
       (if 40.70 \<le> x \<and> x \<le> 40.80 \<and> - 74.05 \<le> y \<and> y \<le> - 73.90 then ''Manhattan''
        else if 40.57 \<le> x \<and> x \<le> 40.74 \<and> - 74.05 \<le> y \<and> y \<le> - 73.80 then ''Brooklyn''
        else if 40.54 \<le> x \<and> x \<le> 40.80 \<and> - 74.00 \<le> y \<and> y \<le> - 73.70 then ''Queens''
        else if 40.78 \<le> x \<and> x \<le> 40.92 \<and> - 73.95 \<le> y \<and> y \<le> - 73.75 then ''Bronx''
        else if 40.50 \<le> x \<and> x \<le> 40.65 \<and> - 74.30 \<le> y \<and> y \<le> - 74.00 then ''Staten Island''
        else ''Unknown'')
   \<and> getBorough NaN lo = ''Unknown'' \<and> getBorough la NaN = ''Unknown''
   \<and> getBorough_in table la lo =
       (case find (\<lambda>(name, b). in_bounds b la lo) table of
          None \<Rightarrow> ''Unknown'' | Some (name, b) \<Rightarrow> name)
   \<and> in_bounds \<lparr> minLat = Fin a, maxLat = Fin b, minLon = Fin c, maxLon = Fin d \<rparr> (Fin x) (Fin y)
       = (a \<le> x \<and> x \<le> b \<and> c \<le> y \<and> y \<le> d)
   \<and> getBorough_in table la lo \<in> insert ''Unknown'' (fst ` set table)
   \<and> getBorough la lo
       \<in> set [''Manhattan'', ''Brooklyn'', ''Queens'', ''Bronx'', ''Staten Island'', ''Unknown'']
   \<and> getBorough (Fin 40.75) (Fin (- 73.98)) = ''Manhattan''
   \<and> getBorough (Fin 40.70) (Fin (- 74.05)) = ''Manhattan''
   \<and> getBorough (Fin 40.72) (Fin (- 73.95)) = ''Manhattan''
   \<and> getBorough (Fin 40.60) (Fin (- 73.95)) = ''Brooklyn''
   \<and> getBorough (Fin 40.75) (Fin (- 73.85)) = ''Queens''
   \<and> getBorough (Fin 40.85) (Fin (- 73.90)) = ''Bronx''
   \<and> getBorough (Fin 40.55) (Fin (- 74.15)) = ''Staten Island''
   \<and> getBorough (Fin 41) (Fin (- 73)) = ''Unknown''"
proof -
  have f: "getBorough la lo =
     (case find (\<lambda>(name, b). in_bounds b la lo) BOROUGHS of
        None \<Rightarrow> ''Unknown'' | Some (name, b) \<Rightarrow> name)"
    unfolding getBorough_def by (rule getBorough_in_find)
  have o: "map fst BOROUGHS = [''Manhattan'', ''Brooklyn'', ''Queens'', ''Bronx'', ''Staten Island'']"
    by (simp add: BOROUGHS_def)
  have c: "getBorough (Fin x) (Fin y) =
       (if 40.70 \<le> x \<and> x \<le> 40.80 \<and> - 74.05 \<le> y \<and> y \<le> - 73.90 then ''Manhattan''
        else if 40.57 \<le> x \<and> x \<le> 40.74 \<and> - 74.05 \<le> y \<and> y \<le> - 73.80 then ''Brooklyn''
        else if 40.54 \<le> x \<and> x \<le> 40.80 \<and> - 74.00 \<le> y \<and> y \<le> - 73.70 then ''Queens''
        else if 40.78 \<le> x \<and> x \<le> 40.92 \<and> - 73.95 \<le> y \<and> y \<le> - 73.75 then ''Bronx''
        else if 40.50 \<le> x \<and> x \<le> 40.65 \<and> - 74.30 \<le> y \<and> y \<le> - 74.00 then ''Staten Island''
        else ''Unknown'')"
    by (simp add: getBorough_def BOROUGHS_def jge_def jle_def not_less)
  have n: "getBorough NaN lo = ''Unknown''" "getBorough la NaN = ''Unknown''"
    by (simp_all add: getBorough_def BOROUGHS_def jge_def jle_def)
  have "getBorough la lo \<in> insert ''Unknown'' (fst ` set BOROUGHS)"
    unfolding getBorough_def by (rule getBorough_in_label)
  then have m: "getBorough la lo
       \<in> set [''Manhattan'', ''Brooklyn'', ''Queens'', ''Bronx'', ''Staten Island'', ''Unknown'']"
    by (simp add: BOROUGHS_def) blast
  have e: "getBorough (Fin 40.75) (Fin (- 73.98)) = ''Manhattan''"
    "getBorough (Fin 40.70) (Fin (- 74.05)) = ''Manhattan''"
    "getBorough (Fin 40.72) (Fin (- 73.95)) = ''Manhattan''"
    "getBorough (Fin 40.60) (Fin (- 73.95)) = ''Brooklyn''"
    "getBorough (Fin 40.75) (Fin (- 73.85)) = ''Queens''"
    "getBorough (Fin 40.85) (Fin (- 73.90)) = ''Bronx''"
    "getBorough (Fin 40.55) (Fin (- 74.15)) = ''Staten Island''"
    "getBorough (Fin 41) (Fin (- 73)) = ''Unknown''"
    by (simp_all add: getBorough_def BOROUGHS_def jge_def jle_def)
  show ?thesis
    using f o c n getBorough_in_find [of table la lo] getBorough_in_label [of table la lo]
      in_bounds_Fin [of a b c d x y] m e
    by (intro conjI) (assumption | rule refl)+
qed

lemma strict_eq_zero: "strict_eq a (Fin 0) = (a = Fin 0)"
  by (auto simp: strict_eq_def)

text \<open>
  C8: the origin is invalid whatever the bounding rectangle is; a coordinate is valid
  exactly when it lies in the rectangle, bounds included, and neither of its two
  values is 0. For the bounds of the program this is a condition on two finite
  numbers: NaN and the infinities are invalid.
\<close>

theorem isValidCoordinate_contract:
  "\<not> isValidCoordinate_in B (Fin 0) (Fin 0)
   \<and> isValidCoordinate_in B la lo = (in_bounds B la lo \<and> la \<noteq> Fin 0 \<and> lo \<noteq> Fin 0)
   \<and> isValidCoordinate la lo =
       (\<exists>x y. la = Fin x \<and> lo = Fin y \<and> x \<noteq> 0 \<and> y \<noteq> 0 \<and>
              40.4774 \<le> x \<and> x \<le> 40.9176 \<and> - 74.2591 \<le> y \<and> y \<le> - 73.7004)"
proof -
  have a: "\<not> isValidCoordinate_in B (Fin 0) (Fin 0)"
    by (simp add: isValidCoordinate_in_def strict_eq_zero)
  have b: "isValidCoordinate_in B la lo = (in_bounds B la lo \<and> la \<noteq> Fin 0 \<and> lo \<noteq> Fin 0)"
    by (auto simp: isValidCoordinate_in_def in_bounds_def strict_eq_zero)
  have c: "isValidCoordinate la lo =
       (\<exists>x y. la = Fin x \<and> lo = Fin y \<and> x \<noteq> 0 \<and> y \<noteq> 0 \<and>
              40.4774 \<le> x \<and> x \<le> 40.9176 \<and> - 74.2591 \<le> y \<and> y \<le> - 73.7004)"
    unfolding isValidCoordinate_def isValidCoordinate_in_def NYC_BOUNDS_def strict_eq_zero jge_def
    by (cases la; cases lo) (auto simp: jle_def)
  show ?thesis using a b c by blast
qed

text \<open>
  C7: the trip type of an enriched record is \<open>Cross Borough\<close> exactly when its two
  boroughs differ and neither is \<open>Unknown\<close>; in every other case it is
  \<open>Within Borough\<close>. The two boroughs are those of the parsed coordinates.
\<close>

theorem trip_type_classification:
  "(trip_type (enrichTripData r) = ''Cross Borough'') =
     (pickup_borough (enrichTripData r) \<noteq> dropoff_borough (enrichTripData r)
      \<and> pickup_borough (enrichTripData r) \<noteq> ''Unknown''
      \<and> dropoff_borough (enrichTripData r) \<noteq> ''Unknown'')
   \<and> (trip_type (enrichTripData r) \<noteq> ''Cross Borough'') =
       (trip_type (enrichTripData r) = ''Within Borough'')
   \<and> pickup_borough (enrichTripData r) =
       getBorough (parseFloat (field (pickup_latitude r))) (parseFloat (field (pickup_longitude r)))
   \<and> dropoff_borough (enrichTripData r) =
       getBorough (parseFloat (field (dropoff_latitude r))) (parseFloat (field (dropoff_longitude r)))"
  by (simp add: enrichTripData_def Let_def trip_record.defs)

section \<open>Properties of the clusterer\<close>

subsection \<open>The distance of two points\<close>

lemma overflow_threshold_ge: "1 \<le> overflow_threshold" "10 ^ 6 \<le> overflow_threshold"
proof -
  have "(10::real) ^ 6 < 10 ^ 300" by simp
  then show "10 ^ 6 \<le> overflow_threshold" using overflow_threshold_bounds(1) by linarith
  then show "1 \<le> overflow_threshold" by simp
qed

lemma fin_nonneg: "0 \<le> x \<Longrightarrow> fin x = (if x < overflow_threshold then Fin x else PInf)"
  using overflow_threshold_ge(1) by (auto simp: fin_def)

lemma square_ge_threshold:
  assumes "overflow_threshold \<le> \<bar>d\<bar>"
  shows "overflow_threshold \<le> d * d"
proof -
  have "overflow_threshold * 1 \<le> \<bar>d\<bar> * \<bar>d\<bar>"
    using assms overflow_threshold_ge(1) by (intro mult_mono) auto
  then show ?thesis by (simp add: abs_mult_self_eq)
qed

lemma jmul_fin_self: "jmul (fin d) (fin d) = fin (d * d)"
proof (cases "\<bar>d\<bar> < overflow_threshold")
  case True
  then show ?thesis by (simp add: fin_Fin)
next
  case False
  then have "overflow_threshold \<le> d * d" by (intro square_ge_threshold) simp
  then have "fin (d * d) = PInf" by (simp add: fin_def)
  moreover have "jmul (fin d) (fin d) = PInf"
    using False by (auto simp: fin_def inf_of_sign_def)
  ultimately show ?thesis by simp
qed

lemma scaled_square_ge_threshold:
  assumes "overflow_threshold \<le> \<bar>d\<bar>"
  shows "overflow_threshold \<le> d / 1000 * (d / 1000)"
proof -
  have "overflow_threshold * 10 ^ 6 \<le> \<bar>d\<bar> * \<bar>d\<bar>"
    using assms overflow_threshold_ge by (intro mult_mono) auto
  then have "overflow_threshold * 10 ^ 6 \<le> d * d" by (simp add: abs_mult_self_eq)
  then show ?thesis by simp
qed

lemma jmul_scaled_self:
  "jmul (jdiv (fin d) (Fin 1000)) (jdiv (fin d) (Fin 1000)) = fin (d / 1000 * (d / 1000))"
proof (cases "\<bar>d\<bar> < overflow_threshold")
  case True
  then have "\<bar>d / 1000\<bar> < overflow_threshold" by simp
  then have "jdiv (fin d) (Fin 1000) = fin (d / 1000)"
    using True by (simp add: fin_Fin)
  then show ?thesis by (simp add: jmul_fin_self)
next
  case False
  then have "overflow_threshold \<le> d / 1000 * (d / 1000)"
    by (intro scaled_square_ge_threshold) simp
  then have "fin (d / 1000 * (d / 1000)) = PInf" by (simp add: fin_def)
  moreover have "jmul (jdiv (fin d) (Fin 1000)) (jdiv (fin d) (Fin 1000)) = PInf"
    using False by (auto simp: fin_def inf_of_sign_def)
  ultimately show ?thesis by simp
qed

lemma jadd_fin_nonneg: "0 \<le> x \<Longrightarrow> 0 \<le> y \<Longrightarrow> jadd (fin x) (fin y) = fin (x + y)"
  by (auto simp: fin_nonneg)

lemma Math_sqrt_fin_nonneg:
  "0 \<le> x \<Longrightarrow> Math_sqrt (fin x) = (if x < overflow_threshold then Fin (sqrt x) else PInf)"
  by (auto simp: fin_nonneg)

lemma parseFloat_or_0_Fin: "parseFloat v = Fin x \<Longrightarrow> parseFloat_or_0 v = Fin x"
  by (auto simp: parseFloat_or_0_def truthy_def)

lemma parseFloat_or_0_field_value:
  "parseFloat v \<noteq> PInf \<Longrightarrow> parseFloat v \<noteq> NInf \<Longrightarrow> parseFloat_or_0 v = Fin (field_value v)"
  by (cases "parseFloat v") (auto simp: parseFloat_or_0_def truthy_def field_value_def)

lemma parseFloat_or_0_not_NaN: "parseFloat_or_0 v \<noteq> NaN"
  by (auto simp: parseFloat_or_0_def truthy_def)

lemma calculateDistance_Fin:
  assumes "parseFloat_or_0 (lat p) = Fin a1" "parseFloat_or_0 (lon p) = Fin b1"
    "parseFloat_or_0 (duration p) = Fin d1"
    "parseFloat_or_0 (lat q) = Fin a2" "parseFloat_or_0 (lon q) = Fin b2"
    "parseFloat_or_0 (duration q) = Fin d2"
  shows "calculateDistance (Some p) (Some q) =
     (if (a1 - a2)\<^sup>2 + (b1 - b2)\<^sup>2 + ((d1 - d2) / 1000)\<^sup>2 < overflow_threshold
      then Fin (sqrt ((a1 - a2)\<^sup>2 + (b1 - b2)\<^sup>2 + ((d1 - d2) / 1000)\<^sup>2)) else PInf)"
proof -
  have "calculateDistance (Some p) (Some q) =
      Math_sqrt (jadd (jadd (jmul (fin (a1 - a2)) (fin (a1 - a2))) (jmul (fin (b1 - b2)) (fin (b1 - b2))))
                      (jmul (jdiv (fin (d1 - d2)) (Fin 1000)) (jdiv (fin (d1 - d2)) (Fin 1000))))"
    by (simp add: assms Let_def jsub_def)
  also have "\<dots> = Math_sqrt (fin ((a1 - a2) * (a1 - a2) + (b1 - b2) * (b1 - b2)
                                 + (d1 - d2) / 1000 * ((d1 - d2) / 1000)))"
    by (simp only: jmul_fin_self jmul_scaled_self jadd_fin_nonneg zero_le_square add_nonneg_nonneg)
  also have "\<dots> = (if (a1 - a2) * (a1 - a2) + (b1 - b2) * (b1 - b2)
                         + (d1 - d2) / 1000 * ((d1 - d2) / 1000) < overflow_threshold
      then Fin (sqrt ((a1 - a2) * (a1 - a2) + (b1 - b2) * (b1 - b2)
                         + (d1 - d2) / 1000 * ((d1 - d2) / 1000))) else PInf)"
    by (intro Math_sqrt_fin_nonneg add_nonneg_nonneg zero_le_square)
  finally show ?thesis by (simp only: power2_eq_square)
qed

lemma calculateDistance_field_values:
  assumes "no_infinite_field p" "no_infinite_field q"
  shows "calculateDistance (Some p) (Some q) =
     (if squared_distance p q < overflow_threshold then Fin (sqrt (squared_distance p q)) else PInf)"
  unfolding squared_distance_def using assms
  by (intro calculateDistance_Fin parseFloat_or_0_field_value) (simp_all add: no_infinite_field_def)

lemma calculateDistance_self:
  assumes "no_infinite_field p"
  shows "calculateDistance (Some p) (Some p) = Fin 0"
proof -
  have "squared_distance p p = 0" by (simp add: squared_distance_def)
  then show ?thesis
    using calculateDistance_field_values [OF assms assms] overflow_threshold_ge(1) by simp
qed

lemma jlt_PInf_left: "\<not> jlt PInf d"
  by (cases d) simp_all

lemma min2_PInf: "d \<noteq> NaN \<Longrightarrow> min2 PInf d = d \<and> min2 d PInf = d"
  by (cases d) (simp_all add: min2_def)

subsection \<open>A distance that is not NaN\<close>

lemma not_negative_not_NaN: "not_negative a \<Longrightarrow> a \<noteq> NaN"
  by (auto simp: not_negative_def)

lemma not_negative_fin: "0 \<le> x \<Longrightarrow> not_negative (fin x)"
  by (auto simp: not_negative_def fin_nonneg)

lemma jsub_Fin_not_NaN: "c \<noteq> NaN \<Longrightarrow> jsub (Fin a) c \<noteq> NaN"
  by (cases c) (simp_all add: jsub_def)

lemma jdiv_1000_not_NaN: "x \<noteq> NaN \<Longrightarrow> jdiv x (Fin 1000) \<noteq> NaN"
  by (cases x) (simp_all add: inf_of_sign_def)

lemma square_not_negative: "x \<noteq> NaN \<Longrightarrow> not_negative (jmul x x)"
proof (cases x)
  case (Fin d)
  then show ?thesis using not_negative_fin [of "d * d"] by simp
qed (simp_all add: not_negative_def inf_of_sign_def)

lemma jadd_not_negative:
  assumes "not_negative a" "not_negative b"
  shows "not_negative (jadd a b)"
proof (cases "a = PInf \<or> b = PInf")
  case True
  then show ?thesis using assms by (auto simp: not_negative_def)
next
  case False
  then obtain x y where "a = Fin x" "0 \<le> x" "b = Fin y" "0 \<le> y"
    using assms by (auto simp: not_negative_def)
  then show ?thesis using not_negative_fin [of "x + y"] by simp
qed

lemma Math_sqrt_not_negative: "not_negative a \<Longrightarrow> not_negative (Math_sqrt a)"
  by (auto simp: not_negative_def)

lemma calculateDistance_not_NaN:
  assumes "no_infinite_field p"
  shows "calculateDistance (Some p) (Some c) \<noteq> NaN"
proof -
  have f: "parseFloat_or_0 (lat p) = Fin (field_value (lat p))"
    "parseFloat_or_0 (lon p) = Fin (field_value (lon p))"
    "parseFloat_or_0 (duration p) = Fin (field_value (duration p))"
    using assms by (simp_all add: no_infinite_field_def parseFloat_or_0_field_value)
  have "not_negative (calculateDistance (Some p) (Some c))"
    unfolding calculateDistance.simps Let_def f
    by (intro Math_sqrt_not_negative jadd_not_negative square_not_negative
        jdiv_1000_not_NaN jsub_Fin_not_NaN parseFloat_or_0_not_NaN)
  then show ?thesis by (rule not_negative_not_NaN)
qed

declare calculateDistance.simps [simp del]

lemma parsed_db_rows:
  "parseFloat (lat db_row) = Fin 40.70" "parseFloat (lon db_row) = Fin (- 73.95)"
  "parseFloat (duration db_row) = Fin 300"
  "parseFloat (lat db_row2) = Fin 40.73" "parseFloat (lon db_row2) = Fin (- 73.91)"
  "parseFloat (duration db_row2) = Fin 1300"
  by (simp_all add: db_row_def db_row2_def parse_defs fin_small)

lemma parsed_huge: "parseFloat_str ''1e400'' = PInf"
  by (simp add: parse_defs fin_def overflow_threshold_def)


lemma big_distance: "calculateDistance (Some big_point) (Some origin_point) = PInf"
proof -
  have "\<not> ((10::real) ^ 200 - 0)\<^sup>2 + (0 - 0)\<^sup>2 + ((0 - 0) / 1000)\<^sup>2 < overflow_threshold"
    using overflow_threshold_bounds(2) by simp
  moreover have "calculateDistance (Some big_point) (Some origin_point) =
     (if ((10::real) ^ 200 - 0)\<^sup>2 + (0 - 0)\<^sup>2 + ((0 - 0) / 1000)\<^sup>2 < overflow_threshold
      then Fin (sqrt ((10 ^ 200 - 0)\<^sup>2 + (0 - 0)\<^sup>2 + ((0 - 0) / 1000)\<^sup>2)) else PInf)"
    by (rule calculateDistance_Fin)
      (simp_all add: big_point_def origin_point_def parseFloat_or_0_def truthy_def)
  ultimately show ?thesis by simp
qed

lemma big_fields:
  "no_infinite_field big_point" "no_infinite_field origin_point"
  "sqrt (squared_distance big_point origin_point) = 10 ^ 200"
proof -
  show "no_infinite_field big_point" "no_infinite_field origin_point"
    by (simp_all add: no_infinite_field_def big_point_def origin_point_def)
  have "squared_distance big_point origin_point = (10 ^ 200)\<^sup>2"
    by (simp add: squared_distance_def field_value_def big_point_def origin_point_def)
  then show "sqrt (squared_distance big_point origin_point) = 10 ^ 200"
    by (simp only: real_sqrt_abs) simp
qed

text \<open>
  C4, as the code has it: for two points none of whose fields parses to an infinity, a
  field that parses to NaN counting as 0, the distance is the square root of
  (lat1 - lat2)^2 + (lon1 - lon2)^2 + ((dur1 - dur2) / 1000)^2 when that sum is below the
  overflow threshold, and \<open>Infinity\<close> when the sum reaches it; the distance of such a
  point to itself is 0. When an argument is \<open>null\<close> or \<open>undefined\<close> the result is
  \<open>Infinity\<close>, which is less than no number and is never the minimum against a number.
\<close>

theorem calculateDistance_euclidean:
  "(no_infinite_field p \<and> no_infinite_field q \<longrightarrow>
      calculateDistance (Some p) (Some q) =
        (if squared_distance p q < overflow_threshold
         then Fin (sqrt (squared_distance p q)) else PInf))
   \<and> (parseFloat (lat p) = Fin a1 \<and> parseFloat (lon p) = Fin b1 \<and> parseFloat (duration p) = Fin d1 \<and>
      parseFloat (lat q) = Fin a2 \<and> parseFloat (lon q) = Fin b2 \<and> parseFloat (duration q) = Fin d2
      \<longrightarrow> calculateDistance (Some p) (Some q) =
        (if (a1 - a2)\<^sup>2 + (b1 - b2)\<^sup>2 + ((d1 - d2) / 1000)\<^sup>2 < overflow_threshold
         then Fin (sqrt ((a1 - a2)\<^sup>2 + (b1 - b2)\<^sup>2 + ((d1 - d2) / 1000)\<^sup>2)) else PInf))
   \<and> (no_infinite_field p \<longrightarrow> calculateDistance (Some p) (Some p) = Fin 0)
   \<and> calculateDistance None (Some q) = PInf
   \<and> calculateDistance (Some p) None = PInf
   \<and> calculateDistance None None = PInf
   \<and> \<not> jlt PInf d
   \<and> (d \<noteq> NaN \<longrightarrow> min2 PInf d = d \<and> min2 d PInf = d)
   \<and> calculateDistance (Some point_a) (Some point_a) = Fin 0"
proof -
  have a: "parseFloat (lat p) = Fin a1 \<and> parseFloat (lon p) = Fin b1 \<and> parseFloat (duration p) = Fin d1 \<and>
      parseFloat (lat q) = Fin a2 \<and> parseFloat (lon q) = Fin b2 \<and> parseFloat (duration q) = Fin d2
      \<longrightarrow> calculateDistance (Some p) (Some q) =
        (if (a1 - a2)\<^sup>2 + (b1 - b2)\<^sup>2 + ((d1 - d2) / 1000)\<^sup>2 < overflow_threshold
         then Fin (sqrt ((a1 - a2)\<^sup>2 + (b1 - b2)\<^sup>2 + ((d1 - d2) / 1000)\<^sup>2)) else PInf)"
    using calculateDistance_Fin [of p a1 b1 d1 q a2 b2 d2] parseFloat_or_0_Fin by blast
  have "no_infinite_field point_a" by (simp add: no_infinite_field_def point_a_def)
  then have b: "calculateDistance (Some point_a) (Some point_a) = Fin 0"
    by (rule calculateDistance_self)
  have n: "calculateDistance None (Some q) = PInf" "calculateDistance (Some p) None = PInf"
    "calculateDistance None None = PInf"
    by (simp_all add: calculateDistance.simps)
  show ?thesis
    using a b n calculateDistance_field_values [of p q] calculateDistance_self [of p]
      jlt_PInf_left [of d] min2_PInf [of d]
    by (intro conjI impI) (assumption | simp)+
qed

theorem calculateDistance_euclidean_witness:
  "no_infinite_field db_row \<and> no_infinite_field db_row2
   \<and> squared_distance db_row db_row2
       = (40.70 - 40.73)\<^sup>2 + (- 73.95 - (- 73.91))\<^sup>2 + ((300 - 1300) / 1000)\<^sup>2
   \<and> squared_distance db_row db_row2 < overflow_threshold
   \<and> calculateDistance (Some db_row) (Some db_row2) = Fin (sqrt (squared_distance db_row db_row2))
   \<and> calculateDistance (Some db_row) (Some db_row) = Fin 0
   \<and> Fin 7 \<noteq> NaN \<and> min2 PInf (Fin 7) = Fin 7"
proof -
  have h: "no_infinite_field db_row" "no_infinite_field db_row2"
    by (simp_all add: no_infinite_field_def parsed_db_rows)
  have s: "squared_distance db_row db_row2
       = (40.70 - 40.73)\<^sup>2 + (- 73.95 - (- 73.91))\<^sup>2 + ((300 - 1300) / 1000)\<^sup>2"
    by (simp add: squared_distance_def field_value_def parsed_db_rows)
  have "(40.70 - 40.73)\<^sup>2 + (- 73.95 - (- 73.91))\<^sup>2 + ((300 - 1300) / 1000)\<^sup>2 < (10::real) ^ 6"
    by (simp add: power2_eq_square)
  then have l: "squared_distance db_row db_row2 < overflow_threshold"
    using overflow_threshold_ge(2) s by linarith
  have n: "Fin 7 \<noteq> NaN" by simp
  from calculateDistance_euclidean [of db_row db_row2 _ _ _ _ _ _ "Fin 7"]
    calculateDistance_euclidean [of db_row db_row] h l n
  show ?thesis using s by simp
qed

text \<open>
  C4 as the specification states it, for every pair of non-null points, fails: a point
  whose latitude is the string \<open>1e400\<close> (which parses to \<open>Infinity\<close>) has the distance
  NaN to itself, not 0; and for the latitudes \<open>1e200\<close> and \<open>0\<close> the square of the
  difference overflows and the result is \<open>Infinity\<close>, where the Euclidean distance is
  \<open>1e200\<close>.
\<close>

theorem calculateDistance_euclidean_counterexample:
  "calculateDistance (Some huge_point) (Some huge_point) = NaN
   \<and> calculateDistance (Some big_point) (Some origin_point) = PInf
   \<and> sqrt (squared_distance big_point origin_point) = 10 ^ 200"
proof -
  have "calculateDistance (Some huge_point) (Some huge_point) = NaN"
    by (simp add: calculateDistance.simps huge_point_def parsed_huge parseFloat_or_0_def
        truthy_def Let_def jsub_def)
  then show ?thesis using big_distance big_fields(3) by simp
qed




subsection \<open>The degenerate requests\<close>

text \<open>
  C6: with no point \<open>kMeans\<close> returns the empty list, and with \<open>k \<le> 0\<close> or
  \<open>k\<close> above the number of points it returns the whole input as one cluster; in both
  cases without a draw from the random source and without an error.
\<close>

theorem kMeans_degenerate:
  "kMeans rnd s [] k maxIterations = Some ([], s)
   \<and> (data \<noteq> [] \<and> (k \<le> 0 \<or> k > int (length data))
        \<longrightarrow> kMeans rnd s data k maxIterations = Some ([data], s))"
  by (simp add: kMeans_def)

theorem kMeans_degenerate_witness:
  "[db_row, db_row2] \<noteq> [] \<and> (3::int) > int (length [db_row, db_row2])
   \<and> kMeans (\<lambda>j. 0) 0 [db_row, db_row2] 3 100 = Some ([[db_row, db_row2]], 0)
   \<and> (0::int) \<le> 0
   \<and> kMeans (\<lambda>j. 0) 0 [db_row, db_row2] 0 100 = Some ([[db_row, db_row2]], 0)"
  using kMeans_degenerate [of "\<lambda>j. 0" 0 3 100 "[db_row, db_row2]"]
    kMeans_degenerate [of "\<lambda>j. 0" 0 0 100 "[db_row, db_row2]"]
  by simp

subsection \<open>The initial centroids\<close>

lemma draw_unused_first:
  assumes "random_index rnd n j \<notin> U" "s \<le> j"
    "\<And>i. s \<le> i \<Longrightarrow> i < j \<Longrightarrow> random_index rnd n i \<in> U"
  shows "draw_unused rnd n U s = Some (random_index rnd n j, Suc j)"
  using assms
proof (induction "j - s" arbitrary: s)
  case 0
  then have "s = j" by simp
  then show ?case using "0.prems"(1) by (subst draw_unused.simps) (simp add: Let_def)
next
  case (Suc d)
  then have lt: "s < j" by simp
  then have "random_index rnd n s \<in> U" using Suc.prems(3) by simp
  moreover have "draw_unused rnd n U (Suc s) = Some (random_index rnd n j, Suc j)"
    using Suc.hyps Suc.prems lt by (intro Suc.hyps(1)) auto
  ultimately show ?case by (subst draw_unused.simps) (simp add: Let_def)
qed

lemma draw_unused_Some:
  assumes "draw_unused rnd n U s = Some r"
  shows "\<exists>j\<ge>s. random_index rnd n j \<notin> U
            \<and> (\<forall>i. s \<le> i \<and> i < j \<longrightarrow> random_index rnd n i \<in> U)
            \<and> r = (random_index rnd n j, Suc j)"
  using assms
proof (induction rnd n U s r rule: draw_unused.raw_induct)
  case (1 draw rnd n U s r)
  show ?case
  proof (cases "random_index rnd n s \<in> U")
    case False
    then have "r = (random_index rnd n s, Suc s)" using "1.hyps" by (simp add: Let_def)
    then show ?thesis using False by (intro exI [of _ s]) auto
  next
    case True
    then have "draw rnd n U (Suc s) = Some r" using "1.hyps" by (simp add: Let_def)
    moreover have "draw_unused rnd n U (Suc s) = Some r"
      using "1.prems" True by (subst (asm) draw_unused.simps) (simp add: Let_def)
    ultimately obtain j where j: "Suc s \<le> j" "random_index rnd n j \<notin> U"
      "\<forall>i. Suc s \<le> i \<and> i < j \<longrightarrow> random_index rnd n i \<in> U"
      "r = (random_index rnd n j, Suc j)"
      using "1.IH" by blast
    have "\<forall>i. s \<le> i \<and> i < j \<longrightarrow> random_index rnd n i \<in> U"
      using j(3) True by (metis Suc_leI le_neq_implies_less)
    then show ?thesis using j by (intro exI [of _ j]) auto
  qed
qed (fact assms)

lemma draw_unused_terminates:
  assumes "random_index rnd n j \<notin> U" "s \<le> j"
  shows "\<exists>r. draw_unused rnd n U s = Some r"
proof -
  define j0 where "j0 = (LEAST i. s \<le> i \<and> random_index rnd n i \<notin> U)"
  have ex: "s \<le> j \<and> random_index rnd n j \<notin> U" using assms by simp
  have a: "s \<le> j0 \<and> random_index rnd n j0 \<notin> U"
    unfolding j0_def by (rule LeastI [of _ j]) (rule ex)
  have b: "\<And>i. s \<le> i \<Longrightarrow> i < j0 \<Longrightarrow> random_index rnd n i \<in> U"
    unfolding j0_def using not_less_Least by blast
  show ?thesis using draw_unused_first [of rnd n j0 U s] a b by blast
qed

lemma draw_unused_None_iff:
  "draw_unused rnd n U s = None \<longleftrightarrow> (\<forall>j\<ge>s. random_index rnd n j \<in> U)"
proof
  assume "draw_unused rnd n U s = None"
  then show "\<forall>j\<ge>s. random_index rnd n j \<in> U"
    using draw_unused_terminates by (metis option.distinct(1))
next
  assume a: "\<forall>j\<ge>s. random_index rnd n j \<in> U"
  show "draw_unused rnd n U s = None"
  proof (cases "draw_unused rnd n U s")
    case (Some r)
    then show ?thesis using draw_unused_Some [OF Some] a by blast
  qed simp
qed

declare initializeCentroids_loop.simps [simp del]

lemma initializeCentroids_loop_result:
  assumes "initializeCentroids_loop rnd data k i U cs s = Some (cs', s')"
  shows "\<exists>js. cs' = cs @ map (\<lambda>j. copy_at data (random_index rnd (length data) j)) js
            \<and> distinct (map (random_index rnd (length data)) js)
            \<and> random_index rnd (length data) ` set js \<inter> U = {}
            \<and> int (length js) = max 0 (k - i)
            \<and> list_all (\<lambda>j. s \<le> j) js"
  using assms
proof (induction rnd data k i U cs s arbitrary: cs' s' rule: initializeCentroids_loop.induct)
  case (1 rnd data k i U cs s)
  show ?case
  proof (cases "i < k")
    case False
    then have "cs' = cs" using "1.prems" by (subst (asm) initializeCentroids_loop.simps) simp
    then show ?thesis using False by (intro exI [of _ "[]"]) simp
  next
    case True
    then obtain ri s1 where d: "draw_unused rnd (length data) U s = Some (ri, s1)"
      and rec: "initializeCentroids_loop rnd data k (i + 1) (insert ri U) (cs @ [copy_at data ri]) s1
                  = Some (cs', s')"
      using "1.prems" by (subst (asm) initializeCentroids_loop.simps) (auto split: option.splits)
    obtain js where js: "cs' = (cs @ [copy_at data ri])
          @ map (\<lambda>j. copy_at data (random_index rnd (length data) j)) js"
      "distinct (map (random_index rnd (length data)) js)"
      "random_index rnd (length data) ` set js \<inter> insert ri U = {}"
      "int (length js) = max 0 (k - (i + 1))"
      "list_all (\<lambda>j. s1 \<le> j) js"
      using "1.IH" [OF True d refl rec] by blast
    obtain j where j: "s \<le> j" "random_index rnd (length data) j \<notin> U"
      "ri = random_index rnd (length data) j" "s1 = Suc j"
      using draw_unused_Some [OF d] by auto
    have "list_all (\<lambda>j. s \<le> j) js"
      using js(5) j(1,4) by (auto simp: list_all_iff)
    then show ?thesis
      using js j True by (intro exI [of _ "j # js"]) auto
  qed
qed

lemma value_outside:
  assumes "finite U" "card U < card V" "finite V"
  shows "\<exists>v\<in>V. v \<notin> U"
proof (rule ccontr)
  assume "\<not> ?thesis"
  then have "V \<subseteq> U" by auto
  then have "card V \<le> card U" using assms(1) by (rule card_mono [rotated])
  then show False using assms(2) by simp
qed

lemma initializeCentroids_loop_terminates:
  assumes "distinct (map (random_index rnd (length data)) js)" "int (length js) = max 0 k"
    "list_all (\<lambda>j. s0 \<le> j) js"
    and "finite U" "int (card U) = i" "s0 \<le> s"
    and "\<forall>j. s0 \<le> j \<and> j < s \<longrightarrow> random_index rnd (length data) j \<in> U"
  shows "\<exists>res. initializeCentroids_loop rnd data k i U cs s = Some res"
  using assms
proof (induction rnd data k i U cs s rule: initializeCentroids_loop.induct)
  case (1 rnd data k i U cs s)
  show ?case
  proof (cases "i < k")
    case False
    then show ?thesis by (subst initializeCentroids_loop.simps) simp
  next
    case True
    define V where "V = random_index rnd (length data) ` set js"
    have "card V = length js"
      unfolding V_def using "1.prems"(1) by (metis distinct_card length_map set_map)
    then have "card U < card V" using True "1.prems"(2,5) by linarith
    then obtain v where v: "v \<in> V" "v \<notin> U"
      using value_outside [of U V] "1.prems"(4) by (auto simp: V_def)
    then obtain j where j: "j \<in> set js" "random_index rnd (length data) j = v"
      by (auto simp: V_def)
    then have "s0 \<le> j" using "1.prems"(3) by (auto simp: list_all_iff)
    then have "s \<le> j" using j v(2) "1.prems"(7) by (metis not_le_imp_less)
    then obtain res where res: "draw_unused rnd (length data) U s = Some res"
      using draw_unused_terminates [of rnd "length data" j U s] j v by auto
    obtain j' where j': "s \<le> j'" "random_index rnd (length data) j' \<notin> U"
      "\<forall>i. s \<le> i \<and> i < j' \<longrightarrow> random_index rnd (length data) i \<in> U"
      "res = (random_index rnd (length data) j', Suc j')"
      using draw_unused_Some [OF res] by blast
    define ri where "ri = random_index rnd (length data) j'"
    have d: "draw_unused rnd (length data) U s = Some (ri, Suc j')"
      using res j'(4) by (simp add: ri_def)
    have inv: "\<forall>j. s0 \<le> j \<and> j < Suc j' \<longrightarrow> random_index rnd (length data) j \<in> insert ri U"
    proof (intro allI impI)
      fix x assume x: "s0 \<le> x \<and> x < Suc j'"
      show "random_index rnd (length data) x \<in> insert ri U"
      proof (cases "x < s")
        case True
        then show ?thesis using "1.prems"(7) x by simp
      next
        case False
        then show ?thesis using j'(3) x by (cases "x = j'") (auto simp: ri_def)
      qed
    qed
    have c: "int (card (insert ri U)) = i + 1"
      using "1.prems"(4,5) j'(2) by (simp add: ri_def)
    have "\<exists>res. initializeCentroids_loop rnd data k (i + 1) (insert ri U) (cs @ [copy_at data ri]) (Suc j')
              = Some res"
      using "1.prems"(1,2,3,4,6) j'(1) inv c
      by (intro "1.IH" [OF True d refl]) auto
    then show ?thesis
      using True d by (subst initializeCentroids_loop.simps) simp
  qed
qed

lemma initializeCentroids_returns_iff:
  "(\<exists>res. initializeCentroids rnd data k s = Some res) = distinct_draws rnd (length data) k s"
proof
  assume "\<exists>res. initializeCentroids rnd data k s = Some res"
  then obtain cs s' where "initializeCentroids_loop rnd data k 0 {} [] s = Some (cs, s')"
    by (auto simp: initializeCentroids_def)
  then show "distinct_draws rnd (length data) k s"
    using initializeCentroids_loop_result [of rnd data k 0 "{}" "[]" s cs s']
    by (auto simp: distinct_draws_def)
next
  assume "distinct_draws rnd (length data) k s"
  then obtain js where "int (length js) = max 0 k"
    "distinct (map (random_index rnd (length data)) js)" "list_all (\<lambda>j. s \<le> j) js"
    by (auto simp: distinct_draws_def)
  then show "\<exists>res. initializeCentroids rnd data k s = Some res"
    unfolding initializeCentroids_def
    by (intro initializeCentroids_loop_terminates [where ?s0.0 = s and js = js]) auto
qed


lemma initializeCentroids_constant_source:
  "initializeCentroids (\<lambda>j. 0) [p, q] 2 s = None"
proof -
  have a: "\<And>n. draw_unused (\<lambda>j. 0) n {} s = Some (0, Suc s)"
    by (subst draw_unused.simps) (simp add: random_index_def)
  have b: "\<And>n. draw_unused (\<lambda>j. 0) n {0} (Suc s) = None"
    by (simp add: draw_unused_None_iff random_index_def)
  have c: "initializeCentroids_loop (\<lambda>j. 0) [p, q] 2 0 {} [] s
      = initializeCentroids_loop (\<lambda>j. 0) [p, q] 2 1 {0} [copy_at [p, q] 0] (Suc s)"
    by (subst initializeCentroids_loop.simps) (simp add: a)
  have d: "initializeCentroids_loop (\<lambda>j. 0) [p, q] 2 1 {0} [copy_at [p, q] 0] (Suc s) = None"
    by (subst initializeCentroids_loop.simps) (simp add: b)
  show ?thesis
    unfolding initializeCentroids_def c d by (rule refl)
qed










subsection \<open>The nearest centroid\<close>

lemma min2_cases: "a \<noteq> NaN \<Longrightarrow> b \<noteq> NaN \<Longrightarrow> min2 a b = a \<or> min2 a b = b"
  by (simp add: min2_def)

lemma foldl_min2_member:
  "a \<noteq> NaN \<Longrightarrow> NaN \<notin> set xs \<Longrightarrow> foldl min2 a xs \<in> insert a (set xs)"
proof (induction xs arbitrary: a)
  case Nil
  then show ?case by simp
next
  case (Cons x xs)
  then have "min2 a x = a \<or> min2 a x = x" by (intro min2_cases) auto
  moreover have "foldl min2 (min2 a x) xs \<in> insert (min2 a x) (set xs)"
    using Cons.prems calculation by (intro Cons.IH) auto
  ultimately show ?case by auto
qed

lemma Math_min_member:
  assumes "xs \<noteq> []" "NaN \<notin> set xs"
  shows "Math_min xs \<in> set xs"
proof (cases xs)
  case Nil
  then show ?thesis using assms by simp
next
  case (Cons x ys)
  then have x: "x \<noteq> NaN" "NaN \<notin> set ys" using assms(2) by auto
  then have "foldl min2 x ys \<in> insert x (set ys)" by (intro foldl_min2_member)
  moreover have "min2 PInf x = x" using x(1) min2_PInf by blast
  ultimately show ?thesis using Cons by (simp add: Math_min_def)
qed

lemma indexOf_from_range:
  "v \<in> set xs \<Longrightarrow> v \<noteq> NaN \<Longrightarrow> i \<le> indexOf_from i xs v \<and> indexOf_from i xs v < i + int (length xs)"
proof (induction xs arbitrary: i)
  case Nil
  then show ?case by simp
next
  case (Cons x xs)
  show ?case
  proof (cases "strict_eq x v")
    case True
    then show ?thesis by simp
  next
    case False
    then have "v \<in> set xs" using Cons.prems by (auto simp: strict_eq_def)
    then show ?thesis using Cons.IH [of "i + 1"] Cons.prems False by simp
  qed
qed

lemma nearest_index_in_range:
  assumes "xs \<noteq> []" "NaN \<notin> set xs"
  shows "0 \<le> indexOf xs (Math_min xs) \<and> indexOf xs (Math_min xs) < int (length xs)"
proof -
  have m: "Math_min xs \<in> set xs" using assms by (rule Math_min_member)
  then have "Math_min xs \<noteq> NaN" using assms(2) by metis
  then show ?thesis using indexOf_from_range [OF m, of 0] by (simp add: indexOf_def)
qed

subsection \<open>The assignment step\<close>

lemma mset_concat_push:
  "i < length xs \<Longrightarrow> mset (concat (xs[i := xs ! i @ [p]])) = mset (concat xs) + {#p#}"
proof (induction xs arbitrary: i)
  case Nil
  then show ?case by simp
next
  case (Cons x xs)
  then show ?case by (cases i) simp_all
qed

lemma assign_point_partition:
  assumes "centroids \<noteq> []" "length clusters = length centroids" "no_infinite_field p"
  shows "length (assign_point centroids clusters p) = length clusters
         \<and> mset (concat (assign_point centroids clusters p)) = mset (concat clusters) + {#p#}"
proof -
  define distances where
    "distances = map (\<lambda>centroid. calculateDistance (Some p) (Some centroid)) centroids"
  have "distances \<noteq> []" using assms(1) by (simp add: distances_def)
  moreover have "NaN \<notin> set distances"
  proof
    assume "NaN \<in> set distances"
    then obtain c where "NaN = calculateDistance (Some p) (Some c)"
      unfolding distances_def by auto
    then show False using calculateDistance_not_NaN [OF assms(3), of c] by simp
  qed
  ultimately have r: "0 \<le> indexOf distances (Math_min distances)"
    "indexOf distances (Math_min distances) < int (length distances)"
    using nearest_index_in_range by auto
  have l: "length distances = length clusters" using assms(2) by (simp add: distances_def)
  have n: "nat (indexOf distances (Math_min distances)) < length clusters" using r l by linarith
  have "assign_point centroids clusters p =
      clusters[nat (indexOf distances (Math_min distances)) :=
                 clusters ! nat (indexOf distances (Math_min distances)) @ [p]]"
    unfolding assign_point_def Let_def distances_def [symmetric] using r l by simp
  then show ?thesis using mset_concat_push [OF n] by simp
qed

lemma foldl_assign_point_partition:
  assumes "centroids \<noteq> []"
  shows "length clusters = length centroids \<Longrightarrow> \<forall>p\<in>set data. no_infinite_field p \<Longrightarrow>
     length (foldl (assign_point centroids) clusters data) = length clusters
     \<and> mset (concat (foldl (assign_point centroids) clusters data)) = mset (concat clusters) + mset data"
proof (induction data arbitrary: clusters)
  case Nil
  then show ?case by simp
next
  case (Cons p data)
  have s: "length (assign_point centroids clusters p) = length clusters"
    "mset (concat (assign_point centroids clusters p)) = mset (concat clusters) + {#p#}"
    using assign_point_partition [OF assms Cons.prems(1), of p] Cons.prems(2) by auto
  have "length (foldl (assign_point centroids) (assign_point centroids clusters p) data)
          = length (assign_point centroids clusters p)
        \<and> mset (concat (foldl (assign_point centroids) (assign_point centroids clusters p) data))
          = mset (concat (assign_point centroids clusters p)) + mset data"
    using Cons.prems s(1) by (intro Cons.IH) auto
  then show ?case using s by simp
qed

lemma assign_points_partition:
  assumes "1 \<le> k" "length centroids = nat k" "\<forall>p\<in>set data. no_infinite_field p"
  shows "length (assign_points centroids k data) = nat k
         \<and> mset (concat (assign_points centroids k data)) = mset data"
proof -
  have "centroids \<noteq> []" using assms(1,2) by auto
  then show ?thesis
    using foldl_assign_point_partition [of centroids "replicate (nat k) []" data] assms
    by (simp add: assign_points_def)
qed

subsection \<open>The update step\<close>

lemma length_update_centroids:
  "length (fst (update_centroids rnd data clusters s)) = length clusters"
proof (induction clusters arbitrary: s)
  case Nil
  then show ?case by simp
next
  case (Cons cluster rest)
  show ?case
  proof (cases "cluster = []")
    case True
    obtain cs s' where "update_centroids rnd data rest (Suc s) = (cs, s')"
      by (cases "update_centroids rnd data rest (Suc s)") auto
    then show ?thesis using True Cons.IH [of "Suc s"] by (simp add: Let_def)
  next
    case False
    obtain cs s' where "update_centroids rnd data rest s = (cs, s')"
      by (cases "update_centroids rnd data rest s") auto
    then show ?thesis using False Cons.IH [of s] by (simp add: Let_def)
  qed
qed

subsection \<open>The loop and the result\<close>

declare kMeans_loop.simps [simp del]

lemma kMeans_loop_partition:
  "iteration < maxIterations \<Longrightarrow> length centroids = nat k \<Longrightarrow>
     1 \<le> k \<Longrightarrow> \<forall>p\<in>set data. no_infinite_field p \<Longrightarrow>
     length (fst (kMeans_loop rnd data k maxIterations iteration centroids clusters s)) = nat k
     \<and> mset (concat (fst (kMeans_loop rnd data k maxIterations iteration centroids clusters s)))
         = mset data"
proof (induction rnd data k maxIterations iteration centroids clusters s rule: kMeans_loop.induct)
  case (1 rnd data k maxIterations iteration centroids clusters s)
  define clusters' where "clusters' = assign_points centroids k data"
  obtain newCentroids s' where u: "update_centroids rnd data clusters' s = (newCentroids, s')"
    by (cases "update_centroids rnd data clusters' s") auto
  have a: "length clusters' = nat k" "mset (concat clusters') = mset data"
    unfolding clusters'_def
    using assign_points_partition [OF "1.prems"(3) "1.prems"(2) "1.prems"(4)] by auto
  have n: "length newCentroids = nat k"
    using length_update_centroids [of rnd data clusters' s] u a(1) by simp
  have step: "kMeans_loop rnd data k maxIterations iteration centroids clusters s =
      (if converged centroids newCentroids then (clusters', s')
       else kMeans_loop rnd data k maxIterations (iteration + 1) newCentroids clusters' s')"
    using "1.prems"(1) u
    by (subst kMeans_loop.simps) (simp add: Let_def clusters'_def [symmetric])
  show ?case
  proof (cases "converged centroids newCentroids")
    case True
    then show ?thesis using step a by simp
  next
    case False
    show ?thesis
    proof (cases "iteration + 1 < maxIterations")
      case True
      have "length (fst (kMeans_loop rnd data k maxIterations (iteration + 1) newCentroids clusters' s')) = nat k
        \<and> mset (concat (fst (kMeans_loop rnd data k maxIterations (iteration + 1) newCentroids clusters' s')))
            = mset data"
        using "1.IH" [OF "1.prems"(1) clusters'_def refl u [symmetric] False True n "1.prems"(3,4)] .
      then show ?thesis using step False by simp
    next
      case last: False
      have "kMeans_loop rnd data k maxIterations (iteration + 1) newCentroids clusters' s' = (clusters', s')"
        using last by (subst kMeans_loop.simps) simp
      then show ?thesis using step False a by simp
    qed
  qed
qed

lemma mset_concat_filter_nonempty:
  "mset (concat (filter (\<lambda>cluster. length cluster > 0) clusters)) = mset (concat clusters)"
  by (induction clusters) auto

lemma kMeans_returns_iff:
  assumes "1 \<le> k" "k \<le> int (length data)"
  shows "(\<exists>res. kMeans rnd s data k maxIterations = Some res) = distinct_draws rnd (length data) k s"
proof -
  have "data \<noteq> []" using assms by auto
  then have "(\<exists>res. kMeans rnd s data k maxIterations = Some res)
      = (\<exists>res. initializeCentroids rnd data k s = Some res)"
    using assms by (auto simp: kMeans_def split: option.splits prod.splits)
  then show ?thesis by (simp only: initializeCentroids_returns_iff)
qed

lemma kMeans_result_partition:
  assumes "1 \<le> k" "k \<le> int (length data)" "1 \<le> maxIterations"
    "\<forall>p\<in>set data. no_infinite_field p"
    "kMeans rnd s data k maxIterations = Some (result, s')"
  shows "int (length result) \<le> k \<and> [] \<notin> set result \<and> mset (concat result) = mset data"
proof -
  have ne: "data \<noteq> []" using assms(1,2) by auto
  obtain centroids s1 where i: "initializeCentroids rnd data k s = Some (centroids, s1)"
    using assms(1,2,5) ne by (auto simp: kMeans_def split: option.splits)
  obtain js where js: "centroids = [] @ map (\<lambda>j. copy_at data (random_index rnd (length data) j)) js"
    "int (length js) = max 0 (k - 0)"
    using initializeCentroids_loop_result [OF i [unfolded initializeCentroids_def]] by blast
  have c: "length centroids = nat k" using js assms(1) by auto
  obtain clusters s2 where l: "kMeans_loop rnd data k maxIterations 0 centroids [] s1 = (clusters, s2)"
    by (cases "kMeans_loop rnd data k maxIterations 0 centroids [] s1") auto
  have p: "length clusters = nat k" "mset (concat clusters) = mset data"
    using kMeans_loop_partition [of 0 maxIterations centroids k data rnd "[]" s1] assms c l by auto
  have r: "result = filter (\<lambda>cluster. length cluster > 0) clusters"
    using assms(1,2,5) ne i l by (simp add: kMeans_def)
  have "length result \<le> nat k" using p(1) by (simp add: r) (metis length_filter_le)
  then have r1: "int (length result) \<le> k" using assms(1) by linarith
  have r2: "[] \<notin> set result" by (simp add: r)
  have r3: "mset (concat result) = mset data"
    by (simp only: r mset_concat_filter_nonempty p(2))
  show ?thesis using r1 r2 r3 by blast
qed

subsection \<open>Runs on two points\<close>

lemma init_two:
  "initializeCentroids alternating [p, q] 2 0 = Some ([p, q], 2)"
proof -
  have d0: "draw_unused alternating (Suc (Suc 0)) {} 0 = Some (0, Suc 0)"
    by (subst draw_unused.simps) (simp add: random_index_def alternating_def)
  have d1: "draw_unused alternating (Suc (Suc 0)) {0} (Suc 0) = Some (1, Suc (Suc 0))"
    by (subst draw_unused.simps) (simp add: random_index_def alternating_def)
  have "initializeCentroids_loop alternating [p, q] 2 0 {} [] 0
      = initializeCentroids_loop alternating [p, q] 2 1 {0} [p] (Suc 0)"
    by (subst initializeCentroids_loop.simps) (simp add: d0 copy_at_def)
  also have "\<dots> = initializeCentroids_loop alternating [p, q] 2 2 {1, 0} [p, q] (Suc (Suc 0))"
    by (subst initializeCentroids_loop.simps) (simp add: d1 copy_at_def)
  also have "\<dots> = Some ([p, q], 2)"
    by (subst initializeCentroids_loop.simps) simp
  finally show ?thesis by (simp add: initializeCentroids_def)
qed

lemma point_fields:
  "no_infinite_field point_a" "no_infinite_field point_b"
  "squared_distance point_a point_b = 0.3725" "squared_distance point_b point_a = 0.3725"
  by (simp_all add: no_infinite_field_def squared_distance_def field_value_def point_a_def
      point_b_def power2_eq_square)

lemma dist_aa: "calculateDistance (Some point_a) (Some point_a) = Fin 0"
  and dist_bb: "calculateDistance (Some point_b) (Some point_b) = Fin 0"
  by (simp_all add: calculateDistance_self point_fields)

lemma dist_ab: "calculateDistance (Some point_a) (Some point_b) = Fin (sqrt 0.3725)"
  and dist_ba: "calculateDistance (Some point_b) (Some point_a) = Fin (sqrt 0.3725)"
proof -
  have "(0.3725::real) < 10 ^ 6" by simp
  then have "(0.3725::real) < overflow_threshold" using overflow_threshold_ge(2) by linarith
  then show "calculateDistance (Some point_a) (Some point_b) = Fin (sqrt 0.3725)"
    "calculateDistance (Some point_b) (Some point_a) = Fin (sqrt 0.3725)"
    using calculateDistance_field_values [of point_a point_b]
      calculateDistance_field_values [of point_b point_a]
    by (simp_all add: point_fields)
qed

lemma assign_two:
  "assign_points [point_a, point_b] 2 [point_a, point_b] = [[point_a], [point_b]]"
proof -
  have a: "assign_point [point_a, point_b] [[], []] point_a = [[point_a], []]"
    by (simp add: assign_point_def Let_def dist_aa dist_ab Math_min_def min2_def indexOf_def
        strict_eq_def)
  have b: "assign_point [point_a, point_b] [[point_a], []] point_b = [[point_a], [point_b]]"
    by (simp add: assign_point_def Let_def dist_bb dist_ba Math_min_def min2_def indexOf_def
        strict_eq_def)
  show ?thesis
    by (simp add: assign_points_def numeral_2_eq_2 a b)
qed

lemma average_single:
  "f p = JNum (Fin x) \<Longrightarrow> \<bar>x\<bar> \<le> 10 ^ 9 \<Longrightarrow> average f [p] = Fin x"
  by (simp add: average_def fin_small)

lemma mean_point_b:
  "\<lparr> lat = JNum (average lat [point_b]), lon = JNum (average lon [point_b]),
     duration = JNum (average duration [point_b]) \<rparr> = point_b"
proof -
  have "average lat [point_b] = Fin 40.80" "average lon [point_b] = Fin (- 73.90)"
    "average duration [point_b] = Fin 900"
    by (rule average_single; simp add: point_b_def)+
  then show ?thesis by (simp add: point_b_def)
qed

lemma mean_point_a:
  "\<lparr> lat = JNum (average lat [point_a]), lon = JNum (average lon [point_a]),
     duration = JNum (average duration [point_a]) \<rparr> = point_a"
proof -
  have "average lat [point_a] = Fin 40.70" "average lon [point_a] = Fin (- 73.95)"
    "average duration [point_a] = Fin 300"
    by (rule average_single; simp add: point_a_def)+
  then show ?thesis by (simp add: point_a_def)
qed

lemma update_two:
  "update_centroids alternating [point_a, point_b] [[point_a], [point_b]] 2
     = ([point_a, point_b], 2)"
  by (simp add: Let_def mean_point_a mean_point_b)

lemma kMeans_two_points:
  "kMeans alternating 0 [point_a, point_b] 2 100 = Some ([[point_a], [point_b]], 2)"
proof -
  have c: "converged [point_a, point_b] [point_a, point_b]"
    by (simp add: converged_def element_at_def dist_aa dist_bb upt_rec)
  have "kMeans_loop alternating [point_a, point_b] 2 100 0 [point_a, point_b] [] 2
      = ([[point_a], [point_b]], 2)"
    by (subst kMeans_loop.simps) (simp add: assign_two update_two c del: update_centroids.simps)
  then show ?thesis by (simp add: kMeans_def init_two)
qed

lemma kMeans_no_iteration:
  "kMeans alternating 0 [point_a, point_b] 2 0 = Some ([], 2)"
proof -
  have "kMeans_loop alternating [point_a, point_b] 2 0 0 [point_a, point_b] [] 2 = ([], 2)"
    by (subst kMeans_loop.simps) simp
  then show ?thesis by (simp add: kMeans_def init_two)
qed

text \<open>A run in which a point is lost: the latitude of \<open>huge_point\<close> parses to
  \<open>Infinity\<close>, its distance to the centroid that is its own copy is NaN, \<open>Math.min\<close> is
  NaN and \<open>indexOf\<close> finds nothing.\<close>

lemma huge_coerced:
  "parseFloat_or_0 (lat huge_point) = PInf" "parseFloat_or_0 (lon huge_point) = Fin (- 73.95)"
  "parseFloat_or_0 (duration huge_point) = Fin 300"
  "parseFloat_or_0 (lat point_b) = Fin 40.80" "parseFloat_or_0 (lon point_b) = Fin (- 73.90)"
  "parseFloat_or_0 (duration point_b) = Fin 900"
  by (simp_all add: parseFloat_or_0_def truthy_def huge_point_def point_b_def parsed_huge)

lemma dist_huge:
  "calculateDistance (Some huge_point) (Some huge_point) = NaN"
  "calculateDistance (Some huge_point) (Some point_b) = PInf"
  "calculateDistance (Some point_b) (Some huge_point) = PInf"
proof -
  show "calculateDistance (Some huge_point) (Some huge_point) = NaN"
    unfolding calculateDistance.simps Let_def huge_coerced by (simp add: jsub_def)
  have n: "jmul (fin (- 73.95 - (- 73.90))) (fin (- 73.95 - (- 73.90))) \<noteq> NaN"
    "jmul (fin (- 73.90 - (- 73.95))) (fin (- 73.90 - (- 73.95))) \<noteq> NaN"
    by (simp_all only: jmul_fin_self fin_not_NaN not_False_eq_True)
  show "calculateDistance (Some huge_point) (Some point_b) = PInf"
    unfolding calculateDistance.simps Let_def huge_coerced
    using n(1)
    by (cases "jmul (fin (- 73.95 - (- 73.90))) (fin (- 73.95 - (- 73.90)))")
      (simp_all add: jsub_def inf_of_sign_def fin_small)
  show "calculateDistance (Some point_b) (Some huge_point) = PInf"
    unfolding calculateDistance.simps Let_def huge_coerced
    using n(2)
    by (cases "jmul (fin (- 73.90 - (- 73.95))) (fin (- 73.90 - (- 73.95)))")
      (simp_all add: jsub_def inf_of_sign_def fin_small)
qed

lemma assign_huge:
  "assign_points [huge_point, point_b] 2 [huge_point, point_b] = [[], [point_b]]"
proof -
  have a: "assign_point [huge_point, point_b] [[], []] huge_point = [[], []]"
    by (simp add: assign_point_def Let_def dist_huge Math_min_def min2_def indexOf_def
        strict_eq_def)
  have b: "assign_point [huge_point, point_b] [[], []] point_b = [[], [point_b]]"
    by (simp add: assign_point_def Let_def dist_huge dist_bb Math_min_def min2_def indexOf_def
        strict_eq_def)
  show ?thesis
    by (simp add: assign_points_def numeral_2_eq_2 a b)
qed

lemma update_huge:
  "update_centroids alternating [huge_point, point_b] [[], [point_b]] 2
     = ([huge_point, point_b], 3)"
  by (simp add: Let_def mean_point_b random_index_def alternating_def copy_at_def)

lemma kMeans_loses_point:
  "kMeans alternating 0 [huge_point, point_b] 2 1 = Some ([[point_b]], 3)"
proof -
  have c: "\<not> converged [huge_point, point_b] [huge_point, point_b]"
    by (simp add: converged_def element_at_def dist_huge upt_rec)
  have e: "kMeans_loop alternating [huge_point, point_b] 2 1 1 [huge_point, point_b] [[], [point_b]] 3
      = ([[], [point_b]], 3)"
    by (subst kMeans_loop.simps) simp
  have "kMeans_loop alternating [huge_point, point_b] 2 1 0 [huge_point, point_b] [] 2
      = ([[], [point_b]], 3)"
    by (subst kMeans_loop.simps)
      (simp add: assign_huge update_huge c e del: update_centroids.simps)
  then show ?thesis by (simp add: kMeans_def init_two)
qed

subsection \<open>The partition\<close>

lemma alternating_distinct_draws: "distinct_draws alternating 3 2 0"
  unfolding distinct_draws_def
  by (intro exI [of _ "[0, 1]"]) (simp add: random_index_def alternating_def)

text \<open>
  C2, as the code has it: for \<open>k\<close> between 1 and the number of points, \<open>kMeans\<close> returns
  exactly when the random source yields, from the position where the run starts, at
  least \<open>k\<close> pairwise distinct indices. When it does, the run has at least one
  iteration and no field of a point parses to an infinity, \<open>kMeans\<close> returns at most
  \<open>k\<close> clusters, none of them empty, whose members together are the input as a
  multiset. The statement covers the run that stops on convergence and the run that
  uses up \<open>maxIterations\<close> alike.
\<close>

theorem kMeans_partition:
  "(1 \<le> k \<and> k \<le> int (length data)
      \<longrightarrow> (\<exists>res. kMeans rnd s data k maxIterations = Some res)
            = distinct_draws rnd (length data) k s)
   \<and> (1 \<le> k \<and> k \<le> int (length data) \<and> 1 \<le> maxIterations
       \<and> (\<forall>p\<in>set data. no_infinite_field p) \<and> distinct_draws rnd (length data) k s
      \<longrightarrow> (\<exists>clusters s'. kMeans rnd s data k maxIterations = Some (clusters, s')
             \<and> int (length clusters) \<le> k \<and> [] \<notin> set clusters
             \<and> mset (concat clusters) = mset data))"
proof (intro conjI impI)
  assume "1 \<le> k \<and> k \<le> int (length data)"
  then show "(\<exists>res. kMeans rnd s data k maxIterations = Some res)
            = distinct_draws rnd (length data) k s"
    using kMeans_returns_iff by blast
next
  assume h: "1 \<le> k \<and> k \<le> int (length data) \<and> 1 \<le> maxIterations
       \<and> (\<forall>p\<in>set data. no_infinite_field p) \<and> distinct_draws rnd (length data) k s"
  then obtain clusters s' where r: "kMeans rnd s data k maxIterations = Some (clusters, s')"
    using kMeans_returns_iff [of k data rnd s maxIterations] by auto
  then have "int (length clusters) \<le> k \<and> [] \<notin> set clusters \<and> mset (concat clusters) = mset data"
    using h kMeans_result_partition [of k data maxIterations rnd s clusters s'] by blast
  then show "\<exists>clusters s'. kMeans rnd s data k maxIterations = Some (clusters, s')
             \<and> int (length clusters) \<le> k \<and> [] \<notin> set clusters
             \<and> mset (concat clusters) = mset data"
    using r by blast
qed

text \<open>A run on three points with the alternating source, which draws the indices 0 and 1
  only; and the value that \<open>kMeans\<close> computes on two points.\<close>

theorem kMeans_partition_witness:
  "(1::int) \<le> 2 \<and> (2::int) \<le> int (length [point_a, point_b, db_row]) \<and> (1::int) \<le> 100
   \<and> no_infinite_field point_a \<and> no_infinite_field point_b \<and> no_infinite_field db_row
   \<and> distinct_draws alternating (length [point_a, point_b, db_row]) 2 0
   \<and> (\<exists>clusters s'. kMeans alternating 0 [point_a, point_b, db_row] 2 100 = Some (clusters, s')
           \<and> int (length clusters) \<le> 2 \<and> [] \<notin> set clusters
           \<and> mset (concat clusters) = mset [point_a, point_b, db_row])
   \<and> kMeans alternating 0 [point_a, point_b] 2 100 = Some ([[point_a], [point_b]], 2)"
proof -
  have f: "no_infinite_field point_a" "no_infinite_field point_b" "no_infinite_field db_row"
    using point_fields(1,2) by (simp_all add: no_infinite_field_def parsed_db_rows)
  have d: "distinct_draws alternating (length [point_a, point_b, db_row]) 2 0"
    using alternating_distinct_draws by (simp add: numeral_3_eq_3)
  have "\<exists>clusters s'. kMeans alternating 0 [point_a, point_b, db_row] 2 100 = Some (clusters, s')
           \<and> int (length clusters) \<le> 2 \<and> [] \<notin> set clusters
           \<and> mset (concat clusters) = mset [point_a, point_b, db_row]"
    using kMeans_partition [of 2 "[point_a, point_b, db_row]" alternating 0 100] f d by simp
  then show ?thesis using f d kMeans_two_points by simp
qed

text \<open>
  C2 as the specification states it fails in three ways. With the random source that is
  constantly \<open>0\<close>, two points and \<open>k = 2\<close>, the initialisation draws the index \<open>0\<close> for
  ever and \<open>kMeans\<close> does not return. With \<open>maxIterations = 0\<close> the loop body never runs
  and the result is the empty list, which holds none of the two points. With a point
  whose latitude parses to \<open>Infinity\<close> and one iteration, that point is in no cluster of
  the result.
\<close>

theorem kMeans_partition_counterexample:
  "(1::int) \<le> 2 \<and> (2::int) \<le> int (length [point_a, point_b])
   \<and> kMeans (\<lambda>j. 0) 0 [point_a, point_b] 2 100 = None
   \<and> kMeans alternating 0 [point_a, point_b] 2 0 = Some ([], 2)
   \<and> kMeans alternating 0 [huge_point, point_b] 2 1 = Some ([[point_b]], 3)"
proof -
  have "kMeans (\<lambda>j. 0) 0 [point_a, point_b] 2 100 = None"
    by (simp add: kMeans_def initializeCentroids_constant_source)
  then show ?thesis using kMeans_no_iteration kMeans_loses_point by simp
qed

end
